theory Spec2Isabelle
  imports Main "HOL-Library.Sublist"
begin

section \<open>The query safety gate of pg_mcp (src/pg_mcp/pg_handler.py)\<close>

text \<open>
  A shallow embedding of the two checks that \<open>PostgreSQLHandler.execute_query\<close> runs on a
  query before it opens a database connection: \<open>is_query_safe\<close> (with its helpers
  \<open>_check_statement_safety\<close>, \<open>_extract_sql_keyword\<close>, \<open>_check_select_safety\<close> and
  \<open>_check_nested_dangerous_operations\<close>) and \<open>validate_database_context\<close>.

  Python strings are modelled as \<open>string\<close>, the UTF-8 bytes of the text. The query text
  is taken to be ASCII: there \<open>str.upper\<close>, \<open>str.lower\<close>, \<open>str.strip\<close>, the regular
  expression classes \<open>\s\<close> and \<open>\b\<close> and the flag \<open>re.IGNORECASE\<close> are the functions
  below. The Chinese literals of the source are written as the bytes of their UTF-8
  encoding, with their code points named beside them. Recursion is unbounded: the
  interpreter's recursion limit is not modelled.
\<close>

subsection \<open>Python string operations on ASCII text\<close>

definition upper_char :: "char \<Rightarrow> char" where
  "upper_char c =
     (case map_of (zip ''abcdefghijklmnopqrstuvwxyz'' ''ABCDEFGHIJKLMNOPQRSTUVWXYZ'') c of
        None \<Rightarrow> c
      | Some u \<Rightarrow> u)"

definition lower_char :: "char \<Rightarrow> char" where
  "lower_char c =
     (case map_of (zip ''ABCDEFGHIJKLMNOPQRSTUVWXYZ'' ''abcdefghijklmnopqrstuvwxyz'') c of
        None \<Rightarrow> c
      | Some l \<Rightarrow> l)"

text \<open>\<open>s.upper()\<close> and \<open>s.lower()\<close>.\<close>

definition py_upper :: "string \<Rightarrow> string" where
  "py_upper s = map upper_char s"

definition py_lower :: "string \<Rightarrow> string" where
  "py_lower s = map lower_char s"

text \<open>
  \<open>c.isspace()\<close>, which is also the class \<open>\s\<close> of \<open>re\<close> on \<open>str\<close>: tab, line feed,
  vertical tab, form feed, carriage return, the four separators 0x1C to 0x1F, and space.
\<close>

definition isspace :: "char \<Rightarrow> bool" where
  "isspace c =
     (c \<in> set [CHR 0x09, CHR 0x0A, CHR 0x0B, CHR 0x0C, CHR 0x0D,
                CHR 0x1C, CHR 0x1D, CHR 0x1E, CHR 0x1F, CHR 0x20])"

text \<open>\<open>s.strip()\<close>: whitespace removed at both ends.\<close>

definition py_strip :: "string \<Rightarrow> string" where
  "py_strip s = rev (dropWhile isspace (rev (dropWhile isspace s)))"

text \<open>\<open>needle in hay\<close>: \<open>needle\<close> occurs in \<open>hay\<close> as a contiguous substring.\<close>

fun str_in :: "string \<Rightarrow> string \<Rightarrow> bool" where
  "str_in needle [] = (needle = [])"
| "str_in needle (c # cs) = (prefix needle (c # cs) \<or> str_in needle cs)"

text \<open>The class \<open>\w\<close> of \<open>re\<close>: letters, digits and the underscore.\<close>

definition isword :: "char \<Rightarrow> bool" where
  "isword c =
     (c \<in> set ''abcdefghijklmnopqrstuvwxyzABCDEFGHIJKLMNOPQRSTUVWXYZ0123456789_'')"

subsection \<open>The handler and its messages\<close>

text \<open>
  The fields of \<open>PostgreSQLHandler\<close> that the checks read. \<open>__init__\<close> sets
  \<open>allow_dangerous_operations\<close> from the environment variable \<open>PG_ALLOW_DANGEROUS\<close>,
  \<open>database\<close> from \<open>PG_DATABASE\<close> and \<open>is_chinese\<close> from the locale.
\<close>

record handler =
  is_chinese :: bool
  database :: string
  allow_dangerous_operations :: bool

text \<open>\<open>_get_message\<close>: the Chinese message in a Chinese locale, the English one otherwise.\<close>

definition get_message :: "handler \<Rightarrow> string \<Rightarrow> string \<Rightarrow> string" where
  "get_message h zh_msg en_msg = (if is_chinese h then zh_msg else en_msg)"

text \<open>Line 112 of pg_handler.py; code points: U+65E0 U+6CD5 U+89E3 U+6790 S Q L U+67E5 U+8BE2\<close>

definition msg_cannot_parse :: string where
  "msg_cannot_parse =
     [CHR 0xE6, CHR 0x97, CHR 0xA0, CHR 0xE6, CHR 0xB3, CHR 0x95, CHR 0xE8, CHR 0xA7, CHR 0xA3,
     CHR 0xE6, CHR 0x9E, CHR 0x90] @ ''SQL'' @ [CHR 0xE6, CHR 0x9F, CHR 0xA5, CHR 0xE8, CHR
     0xAF, CHR 0xA2]"

text \<open>Line 124 of pg_handler.py; code points: S Q L U+89E3 U+6790 U+5931 U+8D25 , U+67E5 U+8BE2 U+88AB U+62D2 U+7EDD : SP\<close>

definition msg_parse_failed :: string where
  "msg_parse_failed =
     ''SQL'' @ [CHR 0xE8, CHR 0xA7, CHR 0xA3, CHR 0xE6, CHR 0x9E, CHR 0x90, CHR 0xE5, CHR 0xA4,
     CHR 0xB1, CHR 0xE8, CHR 0xB4, CHR 0xA5] @ '','' @ [CHR 0xE6, CHR 0x9F, CHR 0xA5, CHR 0xE8,
     CHR 0xAF, CHR 0xA2, CHR 0xE8, CHR 0xA2, CHR 0xAB, CHR 0xE6, CHR 0x8B, CHR 0x92, CHR 0xE7,
     CHR 0xBB, CHR 0x9D] @ '': ''"

text \<open>Line 136 of pg_handler.py; code points: U+7A7A U+7684 S Q L U+8BED U+53E5\<close>

definition msg_empty_statement :: string where
  "msg_empty_statement =
     [CHR 0xE7, CHR 0xA9, CHR 0xBA, CHR 0xE7, CHR 0x9A, CHR 0x84] @ ''SQL'' @ [CHR 0xE8, CHR
     0xAF, CHR 0xAD, CHR 0xE5, CHR 0x8F, CHR 0xA5]"

text \<open>Line 146 of pg_handler.py; code points: U+4E0D U+5141 U+8BB8 U+7684 S Q L U+547D U+4EE4 : SP\<close>

definition zh_disallowed_1 :: string where
  "zh_disallowed_1 =
     [CHR 0xE4, CHR 0xB8, CHR 0x8D, CHR 0xE5, CHR 0x85, CHR 0x81, CHR 0xE8, CHR 0xAE, CHR 0xB8,
     CHR 0xE7, CHR 0x9A, CHR 0x84] @ ''SQL'' @ [CHR 0xE5, CHR 0x91, CHR 0xBD, CHR 0xE4, CHR
     0xBB, CHR 0xA4] @ '': ''"

text \<open>Line 146 of pg_handler.py; code points: U+3002 U+4EC5 U+5141 U+8BB8 S E L E C T U+3001 S H O W U+3001 D E S C R I B E U+3001 E X
  P L A I N U+67E5 U+8BE2 , U+9664 U+975E U+5728 U+73AF U+5883 U+53D8 U+91CF U+4E2D U+542F
  U+7528 U+5371 U+9669 U+64CD U+4F5C U+3002\<close>

definition zh_disallowed_2 :: string where
  "zh_disallowed_2 =
     [CHR 0xE3, CHR 0x80, CHR 0x82, CHR 0xE4, CHR 0xBB, CHR 0x85, CHR 0xE5, CHR 0x85, CHR 0x81,
     CHR 0xE8, CHR 0xAE, CHR 0xB8] @ ''SELECT'' @ [CHR 0xE3, CHR 0x80, CHR 0x81] @ ''SHOW'' @
     [CHR 0xE3, CHR 0x80, CHR 0x81] @ ''DESCRIBE'' @ [CHR 0xE3, CHR 0x80, CHR 0x81] @
     ''EXPLAIN'' @ [CHR 0xE6, CHR 0x9F, CHR 0xA5, CHR 0xE8, CHR 0xAF, CHR 0xA2] @ '','' @ [CHR
     0xE9, CHR 0x99, CHR 0xA4, CHR 0xE9, CHR 0x9D, CHR 0x9E, CHR 0xE5, CHR 0x9C, CHR 0xA8, CHR
     0xE7, CHR 0x8E, CHR 0xAF, CHR 0xE5, CHR 0xA2, CHR 0x83, CHR 0xE5, CHR 0x8F, CHR 0x98, CHR
     0xE9, CHR 0x87, CHR 0x8F, CHR 0xE4, CHR 0xB8, CHR 0xAD, CHR 0xE5, CHR 0x90, CHR 0xAF, CHR
     0xE7, CHR 0x94, CHR 0xA8, CHR 0xE5, CHR 0x8D, CHR 0xB1, CHR 0xE9, CHR 0x99, CHR 0xA9, CHR
     0xE6, CHR 0x93, CHR 0x8D, CHR 0xE4, CHR 0xBD, CHR 0x9C, CHR 0xE3, CHR 0x80, CHR 0x82]"

text \<open>Line 181 of pg_handler.py; code points: C O P Y U+547D U+4EE4\<close>

definition desc_copy :: string where
  "desc_copy =
     ''COPY'' @ [CHR 0xE5, CHR 0x91, CHR 0xBD, CHR 0xE4, CHR 0xBB, CHR 0xA4]"

text \<open>Line 182 of pg_handler.py; code points: U+6587 U+4EF6 U+8BFB U+53D6 U+51FD U+6570 p g _ r e a d _ f i l e\<close>

definition desc_read_file :: string where
  "desc_read_file =
     [CHR 0xE6, CHR 0x96, CHR 0x87, CHR 0xE4, CHR 0xBB, CHR 0xB6, CHR 0xE8, CHR 0xAF, CHR 0xBB,
     CHR 0xE5, CHR 0x8F, CHR 0x96, CHR 0xE5, CHR 0x87, CHR 0xBD, CHR 0xE6, CHR 0x95, CHR 0xB0]
     @ ''pg_read_file''"

text \<open>Line 183 of pg_handler.py; code points: U+76EE U+5F55 U+5217 U+8868 U+51FD U+6570 p g _ l s _ d i r\<close>

definition desc_ls_dir :: string where
  "desc_ls_dir =
     [CHR 0xE7, CHR 0x9B, CHR 0xAE, CHR 0xE5, CHR 0xBD, CHR 0x95, CHR 0xE5, CHR 0x88, CHR 0x97,
     CHR 0xE8, CHR 0xA1, CHR 0xA8, CHR 0xE5, CHR 0x87, CHR 0xBD, CHR 0xE6, CHR 0x95, CHR 0xB0]
     @ ''pg_ls_dir''"

text \<open>Line 184 of pg_handler.py; code points: U+7CFB U+7EDF U+53D8 U+91CF U+8BBF U+95EE\<close>

definition desc_sysvar :: string where
  "desc_sysvar =
     [CHR 0xE7, CHR 0xB3, CHR 0xBB, CHR 0xE7, CHR 0xBB, CHR 0x9F, CHR 0xE5, CHR 0x8F, CHR 0x98,
     CHR 0xE9, CHR 0x87, CHR 0x8F, CHR 0xE8, CHR 0xAE, CHR 0xBF, CHR 0xE9, CHR 0x97, CHR 0xAE]"

text \<open>Line 190 of pg_handler.py; code points: U+68C0 U+6D4B U+5230 U+5371 U+9669 U+7684\<close>

definition zh_construct_1 :: string where
  "zh_construct_1 =
     [CHR 0xE6, CHR 0xA3, CHR 0x80, CHR 0xE6, CHR 0xB5, CHR 0x8B, CHR 0xE5, CHR 0x88, CHR 0xB0,
     CHR 0xE5, CHR 0x8D, CHR 0xB1, CHR 0xE9, CHR 0x99, CHR 0xA9, CHR 0xE7, CHR 0x9A, CHR 0x84]"

text \<open>Line 190 of pg_handler.py; code points: U+64CD U+4F5C , U+67E5 U+8BE2 U+88AB U+62D2 U+7EDD\<close>

definition zh_construct_2 :: string where
  "zh_construct_2 =
     [CHR 0xE6, CHR 0x93, CHR 0x8D, CHR 0xE4, CHR 0xBD, CHR 0x9C] @ '','' @ [CHR 0xE6, CHR
     0x9F, CHR 0xA5, CHR 0xE8, CHR 0xAF, CHR 0xA2, CHR 0xE8, CHR 0xA2, CHR 0xAB, CHR 0xE6, CHR
     0x8B, CHR 0x92, CHR 0xE7, CHR 0xBB, CHR 0x9D]"

text \<open>Line 200 of pg_handler.py; code points: U+68C0 U+6D4B U+5230 U N I O N U+64CD U+4F5C , U+53EF U+80FD U+5B58 U+5728 U+5B89 U+5168
  U+98CE U+9669 , U+67E5 U+8BE2 U+88AB U+62D2 U+7EDD\<close>

definition zh_union :: string where
  "zh_union =
     [CHR 0xE6, CHR 0xA3, CHR 0x80, CHR 0xE6, CHR 0xB5, CHR 0x8B, CHR 0xE5, CHR 0x88, CHR 0xB0]
     @ ''UNION'' @ [CHR 0xE6, CHR 0x93, CHR 0x8D, CHR 0xE4, CHR 0xBD, CHR 0x9C] @ '','' @ [CHR
     0xE5, CHR 0x8F, CHR 0xAF, CHR 0xE8, CHR 0x83, CHR 0xBD, CHR 0xE5, CHR 0xAD, CHR 0x98, CHR
     0xE5, CHR 0x9C, CHR 0xA8, CHR 0xE5, CHR 0xAE, CHR 0x89, CHR 0xE5, CHR 0x85, CHR 0xA8, CHR
     0xE9, CHR 0xA3, CHR 0x8E, CHR 0xE9, CHR 0x99, CHR 0xA9] @ '','' @ [CHR 0xE6, CHR 0x9F, CHR
     0xA5, CHR 0xE8, CHR 0xAF, CHR 0xA2, CHR 0xE8, CHR 0xA2, CHR 0xAB, CHR 0xE6, CHR 0x8B, CHR
     0x92, CHR 0xE7, CHR 0xBB, CHR 0x9D]"

text \<open>Line 218 of pg_handler.py; code points: U+5728 S E L E C T U+8BED U+53E5 U+4E2D U+68C0 U+6D4B U+5230 U+5371 U+9669 U+7684\<close>

definition zh_nested_1 :: string where
  "zh_nested_1 =
     [CHR 0xE5, CHR 0x9C, CHR 0xA8] @ ''SELECT'' @ [CHR 0xE8, CHR 0xAF, CHR 0xAD, CHR 0xE5, CHR
     0x8F, CHR 0xA5, CHR 0xE4, CHR 0xB8, CHR 0xAD, CHR 0xE6, CHR 0xA3, CHR 0x80, CHR 0xE6, CHR
     0xB5, CHR 0x8B, CHR 0xE5, CHR 0x88, CHR 0xB0, CHR 0xE5, CHR 0x8D, CHR 0xB1, CHR 0xE9, CHR
     0x99, CHR 0xA9, CHR 0xE7, CHR 0x9A, CHR 0x84]"

text \<open>Line 218 of pg_handler.py; code points: U+64CD U+4F5C\<close>

definition zh_nested_2 :: string where
  "zh_nested_2 =
     [CHR 0xE6, CHR 0x93, CHR 0x8D, CHR 0xE4, CHR 0xBD, CHR 0x9C]"

text \<open>Line 246 of pg_handler.py; code points: U+4E0D U+5141 U+8BB8 U+5207 U+6362 U+6570 U+636E U+5E93 U+3002 U+53EA U+80FD U+5728
  U+914D U+7F6E U+7684 U+6570 U+636E U+5E93 SP APOSTROPHE\<close>

definition switch_1 :: string where
  "switch_1 =
     [CHR 0xE4, CHR 0xB8, CHR 0x8D, CHR 0xE5, CHR 0x85, CHR 0x81, CHR 0xE8, CHR 0xAE, CHR 0xB8,
     CHR 0xE5, CHR 0x88, CHR 0x87, CHR 0xE6, CHR 0x8D, CHR 0xA2, CHR 0xE6, CHR 0x95, CHR 0xB0,
     CHR 0xE6, CHR 0x8D, CHR 0xAE, CHR 0xE5, CHR 0xBA, CHR 0x93, CHR 0xE3, CHR 0x80, CHR 0x82,
     CHR 0xE5, CHR 0x8F, CHR 0xAA, CHR 0xE8, CHR 0x83, CHR 0xBD, CHR 0xE5, CHR 0x9C, CHR 0xA8,
     CHR 0xE9, CHR 0x85, CHR 0x8D, CHR 0xE7, CHR 0xBD, CHR 0xAE, CHR 0xE7, CHR 0x9A, CHR 0x84,
     CHR 0xE6, CHR 0x95, CHR 0xB0, CHR 0xE6, CHR 0x8D, CHR 0xAE, CHR 0xE5, CHR 0xBA, CHR 0x93]
     @ '' '' @ [CHR 0x27]"

text \<open>Line 246 of pg_handler.py; code points: APOSTROPHE SP U+4E2D U+64CD U+4F5C U+3002\<close>

definition switch_2 :: string where
  "switch_2 =
     [CHR 0x27] @ '' '' @ [CHR 0xE4, CHR 0xB8, CHR 0xAD, CHR 0xE6, CHR 0x93, CHR 0x8D, CHR
     0xE4, CHR 0xBD, CHR 0x9C, CHR 0xE3, CHR 0x80, CHR 0x82]"

text \<open>Line 259 of pg_handler.py; code points: U+4E0D U+5141 U+8BB8 U+8BBF U+95EE U+5176 U+4ED6 s c h e m a SP APOSTROPHE\<close>

definition schema_1 :: string where
  "schema_1 =
     [CHR 0xE4, CHR 0xB8, CHR 0x8D, CHR 0xE5, CHR 0x85, CHR 0x81, CHR 0xE8, CHR 0xAE, CHR 0xB8,
     CHR 0xE8, CHR 0xAE, CHR 0xBF, CHR 0xE9, CHR 0x97, CHR 0xAE, CHR 0xE5, CHR 0x85, CHR 0xB6,
     CHR 0xE4, CHR 0xBB, CHR 0x96] @ ''schema '' @ [CHR 0x27]"

text \<open>Line 259 of pg_handler.py; code points: APOSTROPHE U+3002 U+53EA U+80FD U+5728 U+914D U+7F6E U+7684 U+6570 U+636E U+5E93 U+7684
  p u b l i c SP s c h e m a U+4E2D U+64CD U+4F5C U+3002\<close>

definition schema_2 :: string where
  "schema_2 =
     [CHR 0x27, CHR 0xE3, CHR 0x80, CHR 0x82, CHR 0xE5, CHR 0x8F, CHR 0xAA, CHR 0xE8, CHR 0x83,
     CHR 0xBD, CHR 0xE5, CHR 0x9C, CHR 0xA8, CHR 0xE9, CHR 0x85, CHR 0x8D, CHR 0xE7, CHR 0xBD,
     CHR 0xAE, CHR 0xE7, CHR 0x9A, CHR 0x84, CHR 0xE6, CHR 0x95, CHR 0xB0, CHR 0xE6, CHR 0x8D,
     CHR 0xAE, CHR 0xE5, CHR 0xBA, CHR 0x93, CHR 0xE7, CHR 0x9A, CHR 0x84] @ ''public schema''
     @ [CHR 0xE4, CHR 0xB8, CHR 0xAD, CHR 0xE6, CHR 0x93, CHR 0x8D, CHR 0xE4, CHR 0xBD, CHR
     0x9C, CHR 0xE3, CHR 0x80, CHR 0x82]"

text \<open>Line 382 of pg_handler.py; code points: U+67E5 U+8BE2 U+88AB U+62D2 U+7EDD\<close>

definition zh_rejected :: string where
  "zh_rejected =
     [CHR 0xE6, CHR 0x9F, CHR 0xA5, CHR 0xE8, CHR 0xAF, CHR 0xA2, CHR 0xE8, CHR 0xA2, CHR 0xAB,
     CHR 0xE6, CHR 0x8B, CHR 0x92, CHR 0xE7, CHR 0xBB, CHR 0x9D]"
text \<open>The message of line 145 to 148, for the command \<open>sql_keyword\<close>.\<close>

definition disallowed_msg :: "handler \<Rightarrow> string \<Rightarrow> string" where
  "disallowed_msg h sql_keyword =
     get_message h
       (zh_disallowed_1 @ sql_keyword @ zh_disallowed_2)
       (''Disallowed SQL command: '' @ sql_keyword @
        ''. Only SELECT, SHOW, DESCRIBE, EXPLAIN queries are allowed unless dangerous operations are enabled via environment variable.'')"

text \<open>The message of line 189 to 192, for the construct described by \<open>description\<close>.\<close>

definition construct_msg :: "handler \<Rightarrow> string \<Rightarrow> string" where
  "construct_msg h description =
     get_message h
       (zh_construct_1 @ description @ zh_construct_2)
       (''Detected dangerous '' @ description @ '' operation, query rejected'')"

text \<open>The message of line 199 to 202.\<close>

definition union_msg :: "handler \<Rightarrow> string" where
  "union_msg h =
     get_message h zh_union
       ''Detected UNION operation, potential security risk, query rejected''"

text \<open>The message of line 217 to 220, for the keyword \<open>keyword\<close>.\<close>

definition nested_msg :: "handler \<Rightarrow> string \<Rightarrow> string" where
  "nested_msg h keyword =
     get_message h
       (zh_nested_1 @ keyword @ zh_nested_2)
       (''Detected dangerous '' @ keyword @ '' operation in SELECT statement'')"

text \<open>The message of line 246, naming the configured database.\<close>

definition switch_msg :: "handler \<Rightarrow> string" where
  "switch_msg h = switch_1 @ database h @ switch_2"

text \<open>The message of line 259, naming the captured schema \<open>match\<close>.\<close>

definition schema_msg :: "string \<Rightarrow> string" where
  "schema_msg match = schema_1 @ match @ schema_2"

text \<open>\<open>rejected_msg\<close> of line 382 and 388.\<close>

definition rejected_msg :: "handler \<Rightarrow> string" where
  "rejected_msg h = get_message h zh_rejected ''Query rejected''"

subsection \<open>Tokens of the external parser\<close>

text \<open>
  \<open>sqlparse\<close> is not part of the repository. Of its tokens the checks read the type tag
  \<open>ttype\<close> (compared by identity to \<open>T.Keyword.DML\<close>, \<open>T.Keyword\<close> and \<open>T.Keyword.CTE\<close>),
  \<open>value\<close>, \<open>is_whitespace\<close>, the children \<open>tokens\<close> of a group, and \<open>str\<close>. A leaf
  carries a type tag and its text; a group (\<open>TokenList\<close>, its \<open>ttype\<close> is \<open>None\<close>) carries
  its children. \<open>Whitespace\<close> stands for every type within \<open>T.Whitespace\<close> and
  \<open>Other_ttype\<close> for all remaining types (\<open>T.Keyword.DDL\<close>, \<open>T.Name\<close>, \<open>T.Punctuation\<close>,
  and so on).
\<close>

datatype ttype = Keyword | Keyword_DML | Keyword_CTE | Whitespace | Other_ttype

datatype token = Token ttype string | TokenList "token list"

text \<open>A \<open>sql.Statement\<close>, given by its \<open>tokens\<close>.\<close>

type_synonym statement = "token list"

text \<open>\<open>token.is_whitespace\<close>: the type is within \<open>T.Whitespace\<close>; never for a group.\<close>

fun is_whitespace :: "token \<Rightarrow> bool" where
  "is_whitespace (Token ty v) = (ty = Whitespace)"
| "is_whitespace (TokenList ts) = False"

text \<open>\<open>str(token)\<close>: the value of a leaf, the joined values of the leaves of a group.\<close>

fun str_of :: "token \<Rightarrow> string" where
  "str_of (Token ty v) = v"
| "str_of (TokenList ts) = concat (map str_of ts)"

definition str_of_statement :: "statement \<Rightarrow> string" where
  "str_of_statement statement = concat (map str_of statement)"

subsection \<open>\<open>_extract_sql_keyword\<close>\<close>

text \<open>
  A leaf tagged \<open>T.Keyword.DML\<close>, \<open>T.Keyword\<close> or \<open>T.Keyword.CTE\<close> gives its uppercased
  value. A group recurses into its first child that is not whitespace. Everything else,
  and a group with no such child, gives \<open>str(token).upper().strip()\<close>;
  \<open>extract_sub fallback ts\<close> is the loop over the children, \<open>fallback\<close> the text of the
  group.
\<close>

fun extract_sql_keyword :: "token \<Rightarrow> string"
  and extract_sub :: "string \<Rightarrow> token list \<Rightarrow> string" where
  "extract_sql_keyword (Token ty v) =
     (if ty = Keyword_DML then py_upper v
      else if ty = Keyword then py_upper v
      else if ty = Keyword_CTE then py_upper v
      else py_strip (py_upper v))"
| "extract_sql_keyword (TokenList ts) = extract_sub (concat (map str_of ts)) ts"
| "extract_sub fallback [] = py_strip (py_upper fallback)"
| "extract_sub fallback (sub_token # ts) =
     (if \<not> is_whitespace sub_token then extract_sql_keyword sub_token
      else extract_sub fallback ts)"

subsection \<open>\<open>_check_nested_dangerous_operations\<close>\<close>

definition dangerous_dml :: "string list" where
  "dangerous_dml =
     [''INSERT'', ''UPDATE'', ''DELETE'', ''DROP'', ''ALTER'', ''CREATE'', ''TRUNCATE'', ''COPY'']"

text \<open>
  \<open>check_token_recursively\<close> of line 210 to 230, and the loop over a list of tokens that
  returns at the first rejection. The loop of line 225 to 228 over the children of a
  group and the loop of line 233 to 236 over the tokens of the statement are this same
  loop.
\<close>

fun check_token_recursively :: "handler \<Rightarrow> token \<Rightarrow> bool \<times> string"
  and check_tokens :: "handler \<Rightarrow> token list \<Rightarrow> bool \<times> string" where
  "check_token_recursively h (Token ty v) =
     (if ty = Keyword_DML \<and> py_upper v \<in> set dangerous_dml
      then (False, nested_msg h (py_upper v))
      else (True, []))"
| "check_token_recursively h (TokenList ts) = check_tokens h ts"
| "check_tokens h [] = (True, [])"
| "check_tokens h (sub_token # ts) =
     (case check_token_recursively h sub_token of
        (is_safe, error_msg) \<Rightarrow>
          if \<not> is_safe then (False, error_msg) else check_tokens h ts)"

definition check_nested_dangerous_operations :: "handler \<Rightarrow> statement \<Rightarrow> bool \<times> string" where
  "check_nested_dangerous_operations h statement = check_tokens h statement"

subsection \<open>\<open>_check_select_safety\<close>\<close>

definition dangerous_constructs :: "(string \<times> string) list" where
  "dangerous_constructs =
     [(''INTO OUTFILE'', ''SELECT INTO OUTFILE''),
      (''COPY '', desc_copy),
      (''PG_READ_FILE('', desc_read_file),
      (''PG_LS_DIR('', desc_ls_dir),
      (''@@'', desc_sysvar)]"

text \<open>
  The loop of line 187 to 193: the rejection for the first construct that occurs in the
  text, \<open>None\<close> when the loop ends without returning.
\<close>

fun scan_constructs :: "handler \<Rightarrow> (string \<times> string) list \<Rightarrow> string \<Rightarrow> (bool \<times> string) option" where
  "scan_constructs h [] statement_str = None"
| "scan_constructs h ((construct, description) # rest) statement_str =
     (if str_in construct statement_str then Some (False, construct_msg h description)
      else scan_constructs h rest statement_str)"

definition check_select_safety :: "handler \<Rightarrow> statement \<Rightarrow> bool \<times> string" where
  "check_select_safety h statement =
     (let statement_str = py_upper (str_of_statement statement) in
      case scan_constructs h dangerous_constructs statement_str of
        Some rejection \<Rightarrow> rejection
      | None \<Rightarrow>
          if str_in ''UNION'' statement_str then (False, union_msg h)
          else check_nested_dangerous_operations h statement)"

subsection \<open>\<open>_check_statement_safety\<close>\<close>

text \<open>The loop of line 130 to 133: the first token that is not whitespace.\<close>

fun first_non_whitespace :: "token list \<Rightarrow> token option" where
  "first_non_whitespace [] = None"
| "first_non_whitespace (t # ts) =
     (if \<not> is_whitespace t then Some t else first_non_whitespace ts)"

definition safe_commands :: "string list" where
  "safe_commands = [''SELECT'', ''SHOW'', ''DESCRIBE'', ''DESC'', ''EXPLAIN'', ''WITH'']"

definition check_statement_safety :: "handler \<Rightarrow> statement \<Rightarrow> bool \<times> string" where
  "check_statement_safety h statement =
     (case first_non_whitespace statement of
        None \<Rightarrow> (False, msg_empty_statement)
      | Some first_token \<Rightarrow>
          (let sql_keyword = extract_sql_keyword first_token in
           if sql_keyword \<notin> set safe_commands then (False, disallowed_msg h sql_keyword)
           else if sql_keyword = ''SELECT'' then check_select_safety h statement
           else (True, [])))"

subsection \<open>\<open>is_query_safe\<close>\<close>

text \<open>The loop of line 115 to 118 over the parsed statements.\<close>

fun check_statements :: "handler \<Rightarrow> statement list \<Rightarrow> bool \<times> string" where
  "check_statements h [] = (True, [])"
| "check_statements h (statement # rest) =
     (case check_statement_safety h statement of
        (is_safe, error_msg) \<Rightarrow>
          if \<not> is_safe then (False, error_msg) else check_statements h rest)"

text \<open>
  \<open>sqlparse.parse\<close> is the parameter \<open>parse\<close>: \<open>Inr\<close> the statements it returns, \<open>Inl e\<close>
  an exception raised with \<open>str(e) = e\<close>, which the handler of line 122 to 124 turns into
  a rejection.
\<close>

definition is_query_safe ::
  "handler \<Rightarrow> (string \<Rightarrow> string + statement list) \<Rightarrow> string \<Rightarrow> bool \<times> string" where
  "is_query_safe h parse query =
     (if allow_dangerous_operations h then (True, [])
      else
        case parse query of
          Inl e \<Rightarrow> (False, msg_parse_failed @ e)
        | Inr parsed \<Rightarrow>
            if parsed = [] then (False, msg_cannot_parse)
            else check_statements h parsed)"

subsection \<open>\<open>validate_database_context\<close>\<close>

text \<open>
  The pattern of line 251 is \<open>\b(?:FROM|JOIN|INTO|UPDATE)\s+([^\s\.]+)\.\<close>, used with
  \<open>re.IGNORECASE\<close>. \<open>match_ci kw s\<close> matches the uppercase literal \<open>kw\<close> at the start of
  \<open>s\<close> without regard to case and gives the rest of \<open>s\<close>.
\<close>

definition match_ci :: "string \<Rightarrow> string \<Rightarrow> string option" where
  "match_ci kw s =
     (if length kw \<le> length s \<and> py_upper (take (length kw) s) = kw
      then Some (drop (length kw) s) else None)"

text \<open>The alternation \<open>(?:FROM|JOIN|INTO|UPDATE)\<close>, the alternatives tried in order.\<close>

fun match_alternatives :: "string list \<Rightarrow> string \<Rightarrow> string option" where
  "match_alternatives [] s = None"
| "match_alternatives (kw # kws) s =
     (case match_ci kw s of Some rest \<Rightarrow> Some rest | None \<Rightarrow> match_alternatives kws s)"

text \<open>
  \<open>\b\<close> at a position: exactly one of the character before it (\<open>prev\<close>, \<open>None\<close> at the
  start of the text) and the character after it is a word character.
\<close>

definition word_boundary :: "char option \<Rightarrow> string \<Rightarrow> bool" where
  "word_boundary prev s =
     ((case prev of None \<Rightarrow> False | Some p \<Rightarrow> isword p) \<noteq>
      (case s of [] \<Rightarrow> False | c # cs \<Rightarrow> isword c))"

text \<open>\<open>[^\s\.]\<close>: neither whitespace nor a dot.\<close>

definition ident_char :: "char \<Rightarrow> bool" where
  "ident_char c = (\<not> isspace c \<and> c \<noteq> CHR ''.'')"

text \<open>
  The pattern after \<open>\b\<close>, \<open>(?:FROM|JOIN|INTO|UPDATE)\s+([^\s\.]+)\.\<close>, matched at the
  start of \<open>s\<close>: the captured group and the text after the match. The keywords differ in
  their first letter, so at most one alternative matches; \<open>\s+\<close> is followed by a
  character that is not whitespace and \<open>[^\s\.]+\<close> by a dot, so both greedy runs are
  maximal and no backtracking changes the outcome.
\<close>

definition match_keyword_schema :: "string \<Rightarrow> (string \<times> string) option" where
  "match_keyword_schema s =
     (case match_alternatives [''FROM'', ''JOIN'', ''INTO'', ''UPDATE''] s of
        None \<Rightarrow> None
      | Some r \<Rightarrow>
          if takeWhile isspace r = [] then None
          else
            let r1 = dropWhile isspace r;
                ident = takeWhile ident_char r1
            in
              if ident = [] then None
              else
                case dropWhile ident_char r1 of
                  [] \<Rightarrow> None
                | c # r2 \<Rightarrow> if c = CHR ''.'' then Some (ident, r2) else None)"

text \<open>A match of the whole pattern at the current position, \<open>prev\<close> the character before it.\<close>

definition match_at :: "char option \<Rightarrow> string \<Rightarrow> (string \<times> string) option" where
  "match_at prev s = (if \<not> word_boundary prev s then None else match_keyword_schema s)"

text \<open>
  \<open>re.findall\<close> with this pattern: the text is scanned from left to right, a match adds
  its group and the scan goes on after the match, otherwise at the next character.
\<close>

function findall :: "char option \<Rightarrow> string \<Rightarrow> string list" where
  "findall prev [] = []"
| "findall prev (c # cs) =
     (case match_at prev (c # cs) of
        Some (ident, rest) \<Rightarrow> ident # findall (Some CHR ''.'') rest
      | None \<Rightarrow> findall (Some c) cs)"
  by pat_completeness auto
termination
proof (relation "measure (\<lambda>(prev, s). length s)")
  show "wf (measure (\<lambda>(prev, s). length s))"
    by simp
next
  fix prev :: "char option" and c :: char and cs x ident rest
  assume m: "match_at prev (c # cs) = Some x" and x: "(ident, rest) = x"
  have ci: "length r \<le> length s" if "match_ci kw s = Some r" for kw s r
    using that by (auto simp: match_ci_def split: if_splits)
  have alt: "length r \<le> length s" if "match_alternatives kws s = Some r" for kws s r
    using that by (induction kws) (auto split: option.splits dest: ci)
  from m x obtain r d
    where r: "match_alternatives [''FROM'', ''JOIN'', ''INTO'', ''UPDATE''] (c # cs) = Some r"
      and d: "dropWhile ident_char (dropWhile isspace r) = d # rest"
    by (auto simp: match_at_def match_keyword_schema_def Let_def
        split: if_splits option.splits list.splits)
  have "length (dropWhile ident_char (dropWhile isspace r)) \<le> length r"
    by (meson length_dropWhile_le le_trans)
  with d have "length rest < length r"
    by simp
  with alt [OF r] show "((Some CHR ''.'', rest), prev, c # cs) \<in> measure (\<lambda>(prev, s). length s)"
    by simp
next
  fix prev :: "char option" and c :: char and cs :: string
  show "((Some c, cs), prev, c # cs) \<in> measure (\<lambda>(prev, s). length s)"
    by simp
qed

text \<open>The loop of line 256 to 259 over the captured groups.\<close>

fun check_matches :: "string list \<Rightarrow> bool \<times> string" where
  "check_matches [] = (True, [])"
| "check_matches (match # rest) =
     (if py_lower match \<notin> set [''public'', ''pg_catalog'', ''information_schema'']
      then (False, schema_msg match)
      else check_matches rest)"

definition validate_database_context :: "handler \<Rightarrow> string \<Rightarrow> bool \<times> string" where
  "validate_database_context h query =
     (let query_upper = py_upper (py_strip query) in
      if str_in (CHR 0x5C # ''C '') query_upper \<or> str_in ''USE '' query_upper
      then (False, switch_msg h)
      else check_matches (findall None query))"

subsection \<open>The gate of \<open>execute_query\<close>\<close>

text \<open>
  Line 380 to 389 of \<open>execute_query\<close>: the value it returns when a check rejects the
  query, or \<open>Connect\<close> when both checks pass and the function goes on to open the
  connection and send the query (line 391 and after, not modelled).
\<close>

datatype outcome = Returned string | Connect

definition execute_query ::
  "handler \<Rightarrow> (string \<Rightarrow> string + statement list) \<Rightarrow> string \<Rightarrow> outcome" where
  "execute_query h parse query =
     (case is_query_safe h parse query of
        (is_safe, safety_msg) \<Rightarrow>
          if \<not> is_safe then Returned (rejected_msg h @ '': '' @ safety_msg)
          else
            case validate_database_context h query of
              (is_valid_context, context_msg) \<Rightarrow>
                if \<not> is_valid_context then Returned (rejected_msg h @ '': '' @ context_msg)
                else Connect)"

subsection \<open>Calls and exceptions\<close>

text \<open>
  The outcome of a call with exceptions made explicit: \<open>Inr\<close> the value returned, \<open>Inl e\<close>
  an exception with \<open>str(e) = e\<close> that leaves the code. \<open>is_query_safe_try\<close> is the
  \<open>try\<close> block of line 107 to 120, where the call of the parser is the one place that
  raises, and \<open>is_query_safe_call\<close> the whole function with the handler of line 122 to
  124 around that block. \<open>validate_database_context\<close> has no \<open>try\<close> block; the string
  operations and the \<open>re.findall\<close> of its body do not raise on a string.
\<close>

definition is_query_safe_try ::
  "handler \<Rightarrow> (string \<Rightarrow> string + statement list) \<Rightarrow> string \<Rightarrow> string + (bool \<times> string)" where
  "is_query_safe_try h parse query =
     (case parse query of
        Inl e \<Rightarrow> Inl e
      | Inr parsed \<Rightarrow>
          if parsed = [] then Inr (False, msg_cannot_parse)
          else Inr (check_statements h parsed))"

definition is_query_safe_call ::
  "handler \<Rightarrow> (string \<Rightarrow> string + statement list) \<Rightarrow> string \<Rightarrow> string + (bool \<times> string)" where
  "is_query_safe_call h parse query =
     (if allow_dangerous_operations h then Inr (True, [])
      else
        case is_query_safe_try h parse query of
          Inl e \<Rightarrow> Inr (False, msg_parse_failed @ e)
        | Inr decision \<Rightarrow> Inr decision)"

definition validate_database_context_call :: "handler \<Rightarrow> string \<Rightarrow> string + (bool \<times> string)" where
  "validate_database_context_call h query = Inr (validate_database_context h query)"

subsection \<open>Notions used to state the properties\<close>

text \<open>A decision carries a reason exactly when it rejects.\<close>

definition reason_iff_rejected :: "bool \<times> string \<Rightarrow> bool" where
  "reason_iff_rejected d = ((snd d \<noteq> []) = (\<not> fst d))"

text \<open>
  The nodes of a token tree in pre-order, a group before its children and the children
  from left to right.
\<close>

fun preorder :: "token \<Rightarrow> token list" where
  "preorder (Token ty v) = [Token ty v]"
| "preorder (TokenList ts) = TokenList ts # concat (map preorder ts)"

text \<open>
  A node tagged as a DML keyword whose uppercased text is one of INSERT, UPDATE, DELETE,
  DROP, ALTER, CREATE, TRUNCATE and COPY.
\<close>

fun mutating_dml :: "token \<Rightarrow> bool" where
  "mutating_dml (Token ty v) =
     (ty = Keyword_DML \<and>
      py_upper v \<in> set [''INSERT'', ''UPDATE'', ''DELETE'', ''DROP'', ''ALTER'', ''CREATE'',
                         ''TRUNCATE'', ''COPY''])"
| "mutating_dml (TokenList ts) = False"

text \<open>The text contains one of the five fixed substrings of the construct scan.\<close>

definition has_dangerous_construct :: "string \<Rightarrow> bool" where
  "has_dangerous_construct s =
     (str_in ''INTO OUTFILE'' s \<or> str_in ''COPY '' s \<or> str_in ''PG_READ_FILE('' s \<or>
      str_in ''PG_LS_DIR('' s \<or> str_in ''@@'' s)"

text \<open>The schema names that \<open>validate_database_context\<close> lets pass.\<close>

definition allowed_schema :: "string \<Rightarrow> bool" where
  "allowed_schema m = (py_lower m \<in> set [''public'', ''pg_catalog'', ''information_schema''])"

text \<open>
  An occurrence of the pattern \<open>\b(?:FROM|JOIN|INTO|UPDATE)\s+([^\s\.]+)\.\<close> in a text
  with the group \<open>m\<close>: one of the four keywords in any case, not preceded by a word
  character, then whitespace, then \<open>m\<close>, made of characters that are neither whitespace
  nor a dot, then a dot.
\<close>

definition schema_keyword :: "string \<Rightarrow> bool" where
  "schema_keyword kw = (py_upper kw \<in> set [''FROM'', ''JOIN'', ''INTO'', ''UPDATE''])"

definition schema_occurrence :: "string \<Rightarrow> string \<Rightarrow> bool" where
  "schema_occurrence query m =
     (\<exists>pre kw sp post.
        query = pre @ kw @ sp @ m @ ''.'' @ post \<and>
        schema_keyword kw \<and>
        (pre = [] \<or> \<not> isword (last pre)) \<and>
        sp \<noteq> [] \<and> list_all isspace sp \<and>
        m \<noteq> [] \<and> list_all ident_char m)"

text \<open>
  The kinds of rejection and the message with which the code reports each.
  \<open>ParseFailure None\<close> is the empty parse result of line 112 and \<open>ParseFailure (Some e)\<close>
  the exception \<open>e\<close> caught at line 122.
\<close>

datatype rejection =
    ParseFailure "string option"
  | EmptyStatement
  | DisallowedVerb string
  | DangerousConstruct string
  | UnionRejected
  | EmbeddedMutation string
  | DatabaseSwitchRejected
  | UnauthorizedSchema string

fun reason_text :: "handler \<Rightarrow> rejection \<Rightarrow> string" where
  "reason_text h (ParseFailure None) = msg_cannot_parse"
| "reason_text h (ParseFailure (Some e)) = msg_parse_failed @ e"
| "reason_text h EmptyStatement = msg_empty_statement"
| "reason_text h (DisallowedVerb verb) = disallowed_msg h verb"
| "reason_text h (DangerousConstruct description) = construct_msg h description"
| "reason_text h UnionRejected = union_msg h"
| "reason_text h (EmbeddedMutation verb) = nested_msg h verb"
| "reason_text h DatabaseSwitchRejected = switch_msg h"
| "reason_text h (UnauthorizedSchema m) = schema_msg m"

text \<open>
  The rejections that \<open>is_query_safe\<close> gives: the verb of \<open>DisallowedVerb\<close> is outside
  \<open>safe_commands\<close>, the description of \<open>DangerousConstruct\<close> is one of the five
  of \<open>dangerous_constructs\<close>, the verb of \<open>EmbeddedMutation\<close> is one of \<open>dangerous_dml\<close>.
  The rejections that \<open>validate_database_context\<close> gives: the database switch, and a
  schema that is not one of the three allowed.
\<close>

fun safety_rejection :: "rejection \<Rightarrow> bool" where
  "safety_rejection (ParseFailure e) = True"
| "safety_rejection EmptyStatement = True"
| "safety_rejection (DisallowedVerb verb) = (verb \<notin> set safe_commands)"
| "safety_rejection (DangerousConstruct description) =
     (description \<in> set (map snd dangerous_constructs))"
| "safety_rejection UnionRejected = True"
| "safety_rejection (EmbeddedMutation verb) = (verb \<in> set dangerous_dml)"
| "safety_rejection DatabaseSwitchRejected = False"
| "safety_rejection (UnauthorizedSchema m) = False"

fun context_rejection :: "rejection \<Rightarrow> bool" where
  "context_rejection DatabaseSwitchRejected = True"
| "context_rejection (UnauthorizedSchema m) = (\<not> allowed_schema m)"
| "context_rejection r = False"

text \<open>A decision is an acceptance with no reason, or one of these rejections as a value.\<close>

definition safety_decision :: "handler \<Rightarrow> bool \<times> string \<Rightarrow> bool" where
  "safety_decision h d =
     (d = (True, []) \<or> (\<exists>r. safety_rejection r \<and> d = (False, reason_text h r)))"

definition context_decision :: "handler \<Rightarrow> bool \<times> string \<Rightarrow> bool" where
  "context_decision h d =
     (d = (True, []) \<or> (\<exists>r. context_rejection r \<and> d = (False, reason_text h r)))"

subsection \<open>Example handlers and parse results\<close>

definition enforced :: handler where
  "enforced = \<lparr>is_chinese = False, database = ''appdb'', allow_dangerous_operations = False\<rparr>"

definition permissive :: handler where
  "permissive = \<lparr>is_chinese = False, database = ''appdb'', allow_dangerous_operations = True\<rparr>"

abbreviation ws :: token where
  "ws \<equiv> Token Whitespace '' ''"

abbreviation name :: "string \<Rightarrow> token" where
  "name v \<equiv> TokenList [Token Other_ttype v]"

text \<open>A parser that raises on every text, and one that returns a fixed result.\<close>

definition parse_raises :: "string \<Rightarrow> string + statement list" where
  "parse_raises query = Inl ''unexpected token''"

definition parse_gives :: "statement list \<Rightarrow> string \<Rightarrow> string + statement list" where
  "parse_gives parsed query = Inr parsed"

text \<open>
  \<open>sqlparse.parse\<close> raises on a text nested too deeply for it, such as \<open>deeply_nested\<close>;
  \<open>parse_too_deep\<close> stands for the parser on such a text. The text of the exception
  varies with the version of the library.
\<close>

definition deeply_nested :: string where
  "deeply_nested = replicate 10000 CHR ''['' @ replicate 10000 CHR '']''"

definition parse_too_deep :: "string \<Rightarrow> string + statement list" where
  "parse_too_deep query = Inl ''Maximum recursion depth exceeded''"

text \<open>Token trees for \<open>SELECT 1;\<close> and \<open> DELETE FROM orders\<close>.\<close>

definition select_1 :: statement where
  "select_1 =
     [Token Keyword_DML ''SELECT'', ws, Token Other_ttype ''1'', Token Other_ttype '';'']"

definition delete_orders :: statement where
  "delete_orders =
     [ws, Token Keyword_DML ''DELETE'', ws, Token Keyword ''FROM'', ws, name ''orders'']"

text \<open>A token tree for \<open>SELECT * FROM (SELECT 1 FROM (DELETE FROM t RETURNING 1) x) y\<close>.\<close>

definition nested_delete :: statement where
  "nested_delete =
     [Token Keyword_DML ''SELECT'', ws, Token Other_ttype ''*'', ws, Token Keyword ''FROM'', ws,
      TokenList
        [TokenList
           [Token Other_ttype ''('', Token Keyword_DML ''SELECT'', ws, Token Other_ttype ''1'',
            ws, Token Keyword ''FROM'', ws,
            TokenList
              [TokenList
                 [Token Other_ttype ''('', Token Keyword_DML ''DELETE'', ws,
                  Token Keyword ''FROM'', ws, name ''t'', ws, Token Keyword ''RETURNING'', ws,
                  Token Other_ttype ''1'', Token Other_ttype '')''],
               ws, name ''x''],
            Token Other_ttype '')''],
         ws, name ''y'']]"

text \<open>A token tree for \<open>WITH d AS (DELETE FROM t RETURNING id) SELECT * FROM d\<close>.\<close>

definition with_delete :: statement where
  "with_delete =
     [Token Keyword_CTE ''WITH'', ws,
      TokenList
        [Token Other_ttype ''d'', ws, Token Keyword ''AS'', ws,
         TokenList
           [Token Other_ttype ''('', Token Keyword_DML ''DELETE'', ws, Token Keyword ''FROM'',
            ws, name ''t'', ws, Token Keyword ''RETURNING'', ws, name ''id'',
            Token Other_ttype '')'']],
      ws, Token Keyword_DML ''SELECT'', ws, Token Other_ttype ''*'', ws,
      Token Keyword ''FROM'', ws, name ''d'']"

text \<open>A token tree for \<open>SELECT a FROM t UNION SELECT a FROM t\<close>.\<close>

definition union_same_table :: statement where
  "union_same_table =
     [Token Keyword_DML ''SELECT'', ws, name ''a'', ws, Token Keyword ''FROM'', ws, name ''t'',
      ws, Token Keyword ''UNION'', ws, Token Keyword_DML ''SELECT'', ws, name ''a'', ws,
      Token Keyword ''FROM'', ws, name ''t'']"

text \<open>
  Token trees for \<open>SELECT @@version UNION SELECT 1\<close> and
  \<open>WITH x AS (SELECT 1 UNION SELECT 2) SELECT * FROM x\<close>.
\<close>

definition union_sysvar :: statement where
  "union_sysvar =
     [Token Keyword_DML ''SELECT'', ws, Token Other_ttype ''@@version'', ws,
      Token Keyword ''UNION'', ws, Token Keyword_DML ''SELECT'', ws, Token Other_ttype ''1'']"

definition with_union :: statement where
  "with_union =
     [Token Keyword_CTE ''WITH'', ws,
      TokenList
        [Token Other_ttype ''x'', ws, Token Keyword ''AS'', ws,
         TokenList
           [Token Other_ttype ''('', Token Keyword_DML ''SELECT'', ws, Token Other_ttype ''1'',
            ws, Token Keyword ''UNION'', ws, Token Keyword_DML ''SELECT'', ws,
            Token Other_ttype ''2'', Token Other_ttype '')'']],
      ws, Token Keyword_DML ''SELECT'', ws, Token Other_ttype ''*'', ws,
      Token Keyword ''FROM'', ws, name ''x'']"

section \<open>Properties\<close>

subsection \<open>Evaluation of the string operations\<close>

lemmas string_eval =
  py_upper_def upper_char_def py_lower_def lower_char_def py_strip_def isspace_def isword_def

subsection \<open>Messages are never empty\<close>

lemma get_message_nonempty: "zh \<noteq> [] \<Longrightarrow> en \<noteq> [] \<Longrightarrow> get_message h zh en \<noteq> []"
  by (simp add: get_message_def)

lemma disallowed_msg_nonempty: "disallowed_msg h k \<noteq> []"
  by (simp add: disallowed_msg_def get_message_def zh_disallowed_1_def)

lemma construct_msg_nonempty: "construct_msg h d \<noteq> []"
  by (simp add: construct_msg_def get_message_def zh_construct_1_def)

lemma union_msg_nonempty: "union_msg h \<noteq> []"
  by (simp add: union_msg_def get_message_def zh_union_def)

lemma nested_msg_nonempty: "nested_msg h k \<noteq> []"
  by (simp add: nested_msg_def get_message_def zh_nested_1_def)

lemma switch_msg_nonempty: "switch_msg h \<noteq> []"
  by (simp add: switch_msg_def switch_1_def)

lemma schema_msg_nonempty: "schema_msg m \<noteq> []"
  by (simp add: schema_msg_def schema_1_def)

lemma msg_cannot_parse_nonempty: "msg_cannot_parse \<noteq> []"
  by (simp add: msg_cannot_parse_def)

lemma msg_parse_failed_nonempty: "msg_parse_failed \<noteq> []"
  by (simp add: msg_parse_failed_def)

lemma msg_empty_statement_nonempty: "msg_empty_statement \<noteq> []"
  by (simp add: msg_empty_statement_def)

subsection \<open>Permissive mode\<close>

text \<open>
  Claim C1. With \<open>allow_dangerous_operations\<close> set, \<open>is_query_safe\<close> returns
  \<open>(True, "")\<close> for every query, whatever the parser would do with the text: the result
  is the same for every \<open>parse\<close>, also one that raises, so the text is neither parsed nor
  checked.
\<close>

theorem permissive_allows_without_parsing:
  "allow_dangerous_operations h \<Longrightarrow> is_query_safe h parse query = (True, [])"
  by (simp add: is_query_safe_def)

theorem permissive_allows_without_parsing_witness:
  "allow_dangerous_operations permissive \<and>
   is_query_safe permissive parse_raises ''DROP TABLE users'' = (True, [])"
  using permissive_allows_without_parsing [of permissive parse_raises "''DROP TABLE users''"]
  by (simp add: permissive_def)

subsection \<open>Reasons of decisions\<close>

lemma check_token_reason_iff_rejected:
  "reason_iff_rejected (check_token_recursively h t)"
  "reason_iff_rejected (check_tokens h ts)"
  by (induction h t and h ts rule: check_token_recursively_check_tokens.induct)
     (auto simp: reason_iff_rejected_def nested_msg_nonempty split: prod.splits)

lemma scan_constructs_rejects:
  "scan_constructs h cs s = Some d \<Longrightarrow> reason_iff_rejected d \<and> \<not> fst d"
  by (induction h cs s rule: scan_constructs.induct)
     (auto simp: reason_iff_rejected_def construct_msg_nonempty split: if_splits)

lemma check_select_safety_reason_iff_rejected: "reason_iff_rejected (check_select_safety h st)"
proof (cases "scan_constructs h dangerous_constructs (py_upper (str_of_statement st))")
  case None
  then show ?thesis
    using check_token_reason_iff_rejected(2) [of h st]
    by (simp add: check_select_safety_def check_nested_dangerous_operations_def
        reason_iff_rejected_def union_msg_nonempty)
next
  case (Some d)
  then show ?thesis
    using scan_constructs_rejects [OF Some] by (simp add: check_select_safety_def)
qed

lemma check_statement_safety_reason_iff_rejected: "reason_iff_rejected (check_statement_safety h st)"
  using check_select_safety_reason_iff_rejected [of h st]
  by (auto simp: check_statement_safety_def Let_def reason_iff_rejected_def
      msg_empty_statement_nonempty disallowed_msg_nonempty split: option.splits)

lemma check_statements_reason_iff_rejected: "reason_iff_rejected (check_statements h sts)"
proof (induction sts)
  case Nil
  show ?case by (simp add: reason_iff_rejected_def)
next
  case (Cons st sts)
  with check_statement_safety_reason_iff_rejected [of h st] show ?case
    by (auto simp: reason_iff_rejected_def split: prod.splits)
qed

lemma is_query_safe_reason_iff_rejected: "reason_iff_rejected (is_query_safe h parse query)"
proof (cases "parse query")
  case (Inl e)
  then show ?thesis
    by (simp add: is_query_safe_def reason_iff_rejected_def msg_parse_failed_nonempty)
next
  case (Inr parsed)
  with check_statements_reason_iff_rejected [of h parsed] show ?thesis
    by (simp add: is_query_safe_def reason_iff_rejected_def msg_cannot_parse_nonempty)
qed

lemma check_matches_reason_iff_rejected: "reason_iff_rejected (check_matches ms)"
  by (induction ms) (simp_all add: reason_iff_rejected_def schema_msg_nonempty)

lemma validate_database_context_reason_iff_rejected:
  "reason_iff_rejected (validate_database_context h query)"
  using check_matches_reason_iff_rejected [of "findall None query"]
  by (simp add: validate_database_context_def Let_def reason_iff_rejected_def switch_msg_nonempty)

text \<open>
  Claim C9. For every query, parser and handler, the message returned by
  \<open>is_query_safe\<close> and the one returned by \<open>validate_database_context\<close> is non-empty
  if and only if the returned flag is \<open>False\<close>.
\<close>

theorem reason_nonempty_iff_rejected:
  "(snd (is_query_safe h parse query) \<noteq> [] \<longleftrightarrow> \<not> fst (is_query_safe h parse query)) \<and>
   (snd (validate_database_context h query) \<noteq> [] \<longleftrightarrow>
      \<not> fst (validate_database_context h query))"
  using is_query_safe_reason_iff_rejected [of h parse query]
    validate_database_context_reason_iff_rejected [of h query]
  by (simp add: reason_iff_rejected_def)

subsection \<open>The verb gate\<close>

lemma check_statements_append:
  "check_statements h (pre @ post) =
     (if fst (check_statements h pre) then check_statements h post else check_statements h pre)"
proof (induction pre)
  case Nil
  show ?case by simp
next
  case (Cons st pre)
  obtain ok msg where r: "check_statement_safety h st = (ok, msg)"
    by (cases "check_statement_safety h st")
  with Cons show ?case by simp
qed

lemma check_statements_rejects:
  "st \<in> set parsed \<Longrightarrow> \<not> fst (check_statement_safety h st) \<Longrightarrow>
   \<not> fst (check_statements h parsed)"
  by (induction parsed) (auto split: prod.splits)

lemma disallowed_statement:
  "first_non_whitespace st = Some t \<Longrightarrow> extract_sql_keyword t \<notin> set safe_commands \<Longrightarrow>
   check_statement_safety h st = (False, disallowed_msg h (extract_sql_keyword t))"
  by (simp add: check_statement_safety_def)

text \<open>
  Claim C4. In enforced mode, a parsed statement whose first token that is not whitespace
  yields a command outside \<open>safe_commands\<close> is rejected with the disallowed-command
  message for that command, and a batch that contains such a statement is rejected: the
  result of \<open>is_query_safe\<close> is that rejection when the statements before it pass, and
  the rejection of the statements before it otherwise.
\<close>

theorem disallowed_verb_rejects_batch:
  assumes enforced: "\<not> allow_dangerous_operations h"
    and parsed: "parse query = Inr (pre @ statement # post)"
    and first: "first_non_whitespace statement = Some first_token"
    and verb: "extract_sql_keyword first_token \<notin> set safe_commands"
  shows "check_statement_safety h statement =
           (False, disallowed_msg h (extract_sql_keyword first_token)) \<and>
         \<not> fst (is_query_safe h parse query) \<and>
         is_query_safe h parse query =
           (if fst (check_statements h pre)
            then (False, disallowed_msg h (extract_sql_keyword first_token))
            else check_statements h pre)"
proof -
  have st: "check_statement_safety h statement =
      (False, disallowed_msg h (extract_sql_keyword first_token))"
    using first verb by (rule disallowed_statement)
  have eq: "is_query_safe h parse query = check_statements h (pre @ statement # post)"
    using enforced parsed by (simp add: is_query_safe_def)
  have "\<not> fst (check_statements h (pre @ statement # post))"
    by (rule check_statements_rejects [of statement]) (simp_all add: st)
  with eq st show ?thesis
    by (simp add: check_statements_append)
qed

theorem disallowed_verb_rejects_batch_witness:
  "\<not> allow_dangerous_operations enforced \<and>
   parse_gives [select_1, delete_orders] ''SELECT 1; DELETE FROM orders'' =
     Inr ([select_1] @ delete_orders # []) \<and>
   first_non_whitespace delete_orders = Some (Token Keyword_DML ''DELETE'') \<and>
   extract_sql_keyword (Token Keyword_DML ''DELETE'') = ''DELETE'' \<and>
   ''DELETE'' \<notin> set safe_commands \<and>
   fst (check_statements enforced [select_1]) \<and>
   is_query_safe enforced (parse_gives [select_1, delete_orders])
     ''SELECT 1; DELETE FROM orders'' = (False, disallowed_msg enforced ''DELETE'')"
proof -
  have e: "\<not> allow_dangerous_operations enforced"
    by (simp add: enforced_def)
  have p: "parse_gives [select_1, delete_orders] ''SELECT 1; DELETE FROM orders'' =
      Inr ([select_1] @ delete_orders # [])"
    by (simp add: parse_gives_def)
  have f: "first_non_whitespace delete_orders = Some (Token Keyword_DML ''DELETE'')"
    by (simp add: delete_orders_def)
  have k: "extract_sql_keyword (Token Keyword_DML ''DELETE'') = ''DELETE''"
    by (simp add: string_eval)
  have v: "extract_sql_keyword (Token Keyword_DML ''DELETE'') \<notin> set safe_commands"
    by (simp add: safe_commands_def string_eval)
  have s: "fst (check_statements enforced [select_1])"
    by (simp add: select_1_def check_statement_safety_def check_select_safety_def
        check_nested_dangerous_operations_def str_of_statement_def dangerous_constructs_def
        dangerous_dml_def safe_commands_def string_eval)
  from disallowed_verb_rejects_batch [where parse = "parse_gives [select_1, delete_orders]"
        and query = "''SELECT 1; DELETE FROM orders''" and pre = "[select_1]" and post = "[]",
      OF e p f v]
    e p f k v s show ?thesis
    by simp
qed


subsection \<open>Which statements are scanned in depth\<close>

text \<open>
  What \<open>_check_statement_safety\<close> computes for a command of \<open>safe_commands\<close>: the
  result of \<open>_check_select_safety\<close> for SELECT (line 152), acceptance for the others.
\<close>

lemma check_statement_safety_safe_command:
  assumes "first_non_whitespace statement = Some first_token"
    and "extract_sql_keyword first_token \<in> set safe_commands"
  shows "check_statement_safety h statement =
           (if extract_sql_keyword first_token = ''SELECT''
            then check_select_safety h statement
            else (True, []))"
  using assms by (simp add: check_statement_safety_def)

text \<open>
  Claim C2. The claim has a statement with the command WITH scanned in depth like one
  with SELECT. The code scans for SELECT only: in enforced mode the statement
  \<open>WITH d AS (DELETE FROM t RETURNING id) SELECT * FROM d\<close> has the command WITH and
  passes \<open>_check_statement_safety\<close> unscanned, while \<open>_check_select_safety\<close> on the same
  statement rejects it for the nested DELETE; the query also passes
  \<open>validate_database_context\<close>, so \<open>execute_query\<close> goes on to send it to the database.
\<close>

theorem with_delete_passes_both_checks:
  "str_of_statement with_delete = ''WITH d AS (DELETE FROM t RETURNING id) SELECT * FROM d'' \<and>
   first_non_whitespace with_delete = Some (Token Keyword_CTE ''WITH'') \<and>
   extract_sql_keyword (Token Keyword_CTE ''WITH'') = ''WITH'' \<and>
   check_statement_safety enforced with_delete = (True, []) \<and>
   check_select_safety enforced with_delete = (False, nested_msg enforced ''DELETE'') \<and>
   execute_query enforced (parse_gives [with_delete])
     ''WITH d AS (DELETE FROM t RETURNING id) SELECT * FROM d'' = Connect"
proof -
  have t: "str_of_statement with_delete =
      ''WITH d AS (DELETE FROM t RETURNING id) SELECT * FROM d''"
    by (simp add: with_delete_def str_of_statement_def)
  have f: "first_non_whitespace with_delete = Some (Token Keyword_CTE ''WITH'')"
    by (simp add: with_delete_def)
  have k: "extract_sql_keyword (Token Keyword_CTE ''WITH'') = ''WITH''"
    by (simp add: string_eval)
  have a: "check_statement_safety enforced with_delete = (True, [])"
    by (simp add: check_statement_safety_def f safe_commands_def string_eval)
  have u: "py_upper ''WITH d AS (DELETE FROM t RETURNING id) SELECT * FROM d'' =
      ''WITH D AS (DELETE FROM T RETURNING ID) SELECT * FROM D''"
    by (simp add: string_eval)
  have n: "check_nested_dangerous_operations enforced with_delete =
      (False, nested_msg enforced ''DELETE'')"
    by (simp add: with_delete_def check_nested_dangerous_operations_def dangerous_dml_def
        string_eval)
  have s: "check_select_safety enforced with_delete = (False, nested_msg enforced ''DELETE'')"
    by (simp add: check_select_safety_def t u dangerous_constructs_def n)
  have e: "\<not> allow_dangerous_operations enforced"
    by (simp add: enforced_def)
  have i: "is_query_safe enforced (parse_gives [with_delete])
      ''WITH d AS (DELETE FROM t RETURNING id) SELECT * FROM d'' = (True, [])"
    by (simp add: is_query_safe_def parse_gives_def a e)
  have su: "py_upper (py_strip ''WITH d AS (DELETE FROM t RETURNING id) SELECT * FROM d'') =
      ''WITH D AS (DELETE FROM T RETURNING ID) SELECT * FROM D''"
    by (simp add: string_eval)
  have fa: "findall None ''WITH d AS (DELETE FROM t RETURNING id) SELECT * FROM d'' = []"
    by (simp add: match_at_def word_boundary_def match_keyword_schema_def match_ci_def
        ident_char_def string_eval)
  have v: "validate_database_context enforced
      ''WITH d AS (DELETE FROM t RETURNING id) SELECT * FROM d'' = (True, [])"
    by (simp add: validate_database_context_def su fa del: findall.simps)
  have x: "execute_query enforced (parse_gives [with_delete])
     ''WITH d AS (DELETE FROM t RETURNING id) SELECT * FROM d'' = Connect"
    by (simp add: execute_query_def i v)
  from t f k a s x show ?thesis by simp
qed


subsection \<open>The nested scan\<close>

lemma find_append_first:
  "find P (xs @ ys) = (case find P xs of None \<Rightarrow> find P ys | Some x \<Rightarrow> Some x)"
  by (induction xs) simp_all

lemma mutating_dml_dangerous:
  "mutating_dml (Token ty v) = (ty = Keyword_DML \<and> py_upper v \<in> set dangerous_dml)"
  by (simp add: dangerous_dml_def)

lemma check_token_find:
  "check_token_recursively h t =
     (case find mutating_dml (preorder t) of
        None \<Rightarrow> (True, [])
      | Some d \<Rightarrow> (False, nested_msg h (py_upper (str_of d))))"
  "check_tokens h ts =
     (case find mutating_dml (concat (map preorder ts)) of
        None \<Rightarrow> (True, [])
      | Some d \<Rightarrow> (False, nested_msg h (py_upper (str_of d))))"
proof (induction h t and h ts rule: check_token_recursively_check_tokens.induct)
  case (1 h ty v)
  show ?case
    by (simp add: mutating_dml_dangerous del: mutating_dml.simps)
next
  case (2 h ts)
  then show ?case by simp
next
  case (3 h)
  show ?case by simp
next
  case (4 h sub_token ts)
  show ?case
  proof (cases "find mutating_dml (preorder sub_token)")
    case None
    with 4 show ?thesis
      by (simp add: find_append_first)
  next
    case (Some d)
    with 4 show ?thesis
      by (simp add: find_append_first)
  qed
qed

text \<open>
  Claim C3. \<open>_check_nested_dangerous_operations\<close> rejects with the message for the
  first node, in pre-order, that is tagged as a DML keyword with an uppercased text among
  INSERT, UPDATE, DELETE, DROP, ALTER, CREATE, TRUNCATE and COPY, and accepts when there
  is no such node; nodes after the first one have no influence on the result. For
  \<open>SELECT * FROM (SELECT 1 FROM (DELETE FROM t RETURNING 1) x) y\<close> that node is the
  nested DELETE, and \<open>is_query_safe\<close> in enforced mode rejects the query for it.
\<close>

theorem nested_scan_first_mutation_in_preorder:
  "check_nested_dangerous_operations h statement =
     (case find mutating_dml (concat (map preorder statement)) of
        None \<Rightarrow> (True, [])
      | Some d \<Rightarrow> (False, nested_msg h (py_upper (str_of d)))) \<and>
   find mutating_dml (concat (map preorder nested_delete)) =
     Some (Token Keyword_DML ''DELETE'') \<and>
   str_of_statement nested_delete =
     ''SELECT * FROM (SELECT 1 FROM (DELETE FROM t RETURNING 1) x) y'' \<and>
   is_query_safe enforced (parse_gives [nested_delete])
     ''SELECT * FROM (SELECT 1 FROM (DELETE FROM t RETURNING 1) x) y'' =
     (False, ''Detected dangerous DELETE operation in SELECT statement'')"
proof -
  have a: "check_nested_dangerous_operations h statement =
     (case find mutating_dml (concat (map preorder statement)) of
        None \<Rightarrow> (True, [])
      | Some d \<Rightarrow> (False, nested_msg h (py_upper (str_of d))))"
    by (simp add: check_nested_dangerous_operations_def check_token_find(2))
  have b: "find mutating_dml (concat (map preorder nested_delete)) =
     Some (Token Keyword_DML ''DELETE'')"
    by (simp add: nested_delete_def string_eval)
  have c: "str_of_statement nested_delete =
     ''SELECT * FROM (SELECT 1 FROM (DELETE FROM t RETURNING 1) x) y''"
    by (simp add: nested_delete_def str_of_statement_def)
  have u: "py_upper ''SELECT * FROM (SELECT 1 FROM (DELETE FROM t RETURNING 1) x) y'' =
     ''SELECT * FROM (SELECT 1 FROM (DELETE FROM T RETURNING 1) X) Y''"
    by (simp add: string_eval)
  have f: "first_non_whitespace nested_delete = Some (Token Keyword_DML ''SELECT'')"
    by (simp add: nested_delete_def)
  have s: "check_select_safety enforced nested_delete =
      check_nested_dangerous_operations enforced nested_delete"
    by (simp add: check_select_safety_def c u dangerous_constructs_def)
  have n: "nested_msg enforced (py_upper ''DELETE'') =
      ''Detected dangerous DELETE operation in SELECT statement''"
    by (simp add: nested_msg_def get_message_def enforced_def string_eval)
  have g: "check_statement_safety enforced nested_delete =
      check_select_safety enforced nested_delete"
    by (simp add: check_statement_safety_def f safe_commands_def string_eval)
  have r: "check_nested_dangerous_operations enforced nested_delete =
      (False, ''Detected dangerous DELETE operation in SELECT statement'')"
    using n by (simp add: check_nested_dangerous_operations_def check_token_find(2) b)
  have e: "\<not> allow_dangerous_operations enforced"
    by (simp add: enforced_def)
  have d: "is_query_safe enforced (parse_gives [nested_delete])
     ''SELECT * FROM (SELECT 1 FROM (DELETE FROM t RETURNING 1) x) y'' =
     (False, ''Detected dangerous DELETE operation in SELECT statement'')"
    by (simp add: is_query_safe_def parse_gives_def e g s r)
  from a b c d show ?thesis by simp
qed


subsection \<open>Failing closed, with decisions as values\<close>

lemma safety_decisionI:
  "safety_rejection r \<Longrightarrow> safety_decision h (False, reason_text h r)"
  by (auto simp: safety_decision_def)

lemma check_token_safety_decision:
  "safety_decision h (check_token_recursively h t)"
  "safety_decision h (check_tokens h ts)"
proof (induction h t and h ts rule: check_token_recursively_check_tokens.induct)
  case (1 h ty v)
  show ?case
    using safety_decisionI [of "EmbeddedMutation (py_upper v)" h]
    by (simp add: safety_decision_def)
next
  case (2 h ts)
  then show ?case by simp
next
  case (3 h)
  show ?case by (simp add: safety_decision_def)
next
  case (4 h sub_token ts)
  then show ?case
    by (cases "check_token_recursively h sub_token") (auto simp: safety_decision_def)
qed

lemma scan_constructs_description:
  "scan_constructs h cs s = Some d \<Longrightarrow>
   \<exists>description \<in> set (map snd cs). d = (False, construct_msg h description)"
  by (induction h cs s rule: scan_constructs.induct) (auto split: if_splits)

lemma check_select_safety_decision: "safety_decision h (check_select_safety h st)"
proof (cases "scan_constructs h dangerous_constructs (py_upper (str_of_statement st))")
  case None
  then show ?thesis
    using check_token_safety_decision(2) [of h st] safety_decisionI [of UnionRejected h]
    by (simp add: check_select_safety_def check_nested_dangerous_operations_def)
next
  case (Some d)
  from scan_constructs_description [OF Some] obtain description
    where "description \<in> set (map snd dangerous_constructs)"
      and "d = (False, construct_msg h description)"
    by blast
  with Some safety_decisionI [of "DangerousConstruct description" h] show ?thesis
    by (simp add: check_select_safety_def)
qed

lemma check_statement_safety_decision: "safety_decision h (check_statement_safety h st)"
proof (cases "first_non_whitespace st")
  case None
  then show ?thesis
    using safety_decisionI [of EmptyStatement h]
    by (simp add: check_statement_safety_def)
next
  case (Some t)
  then show ?thesis
    using safety_decisionI [of "DisallowedVerb (extract_sql_keyword t)" h]
      check_select_safety_decision [of h st]
    by (simp add: check_statement_safety_def Let_def) (simp add: safety_decision_def)
qed

lemma check_statements_decision: "safety_decision h (check_statements h sts)"
proof (induction sts)
  case Nil
  show ?case by (simp add: safety_decision_def)
next
  case (Cons st sts)
  with check_statement_safety_decision [of h st] show ?case
    by (cases "check_statement_safety h st") (auto simp: safety_decision_def)
qed

lemma is_query_safe_decision: "safety_decision h (is_query_safe h parse query)"
proof (cases "parse query")
  case (Inl e)
  then show ?thesis
    using safety_decisionI [of "ParseFailure (Some e)" h]
    by (simp add: is_query_safe_def) (simp add: safety_decision_def)
next
  case (Inr parsed)
  then show ?thesis
    using safety_decisionI [of "ParseFailure None" h] check_statements_decision [of h parsed]
    by (simp add: is_query_safe_def) (simp add: safety_decision_def)
qed

lemma check_matches_decision: "context_decision h (check_matches ms)"
proof (induction ms)
  case Nil
  show ?case by (simp add: context_decision_def)
next
  case (Cons m ms)
  show ?case
  proof (cases "allowed_schema m")
    case True
    with Cons show ?thesis by (simp add: allowed_schema_def)
  next
    case False
    then have "context_rejection (UnauthorizedSchema m)" by simp
    then have "context_decision h (False, reason_text h (UnauthorizedSchema m))"
      unfolding context_decision_def by blast
    with False show ?thesis by (simp add: allowed_schema_def)
  qed
qed

lemma validate_database_context_decision:
  "context_decision h (validate_database_context h query)"
proof -
  have "context_rejection DatabaseSwitchRejected" by simp
  then have "context_decision h (False, reason_text h DatabaseSwitchRejected)"
    unfolding context_decision_def by blast
  with check_matches_decision [of h "findall None query"] show ?thesis
    by (simp add: validate_database_context_def Let_def)
qed

lemma check_statements_all:
  "fst (check_statements h sts) = list_all (\<lambda>st. fst (check_statement_safety h st)) sts"
  by (induction sts) (auto split: prod.splits)

text \<open>
  Claim C8. In enforced mode \<open>is_query_safe\<close> allows a query only when the parser
  returned at least one statement and every statement passed
  \<open>_check_statement_safety\<close>: an exception of the parser gives the rejection of line 124
  with the text of the exception, and an empty parse result the rejection of line 112.
  No exception leaves either check: the call of \<open>is_query_safe\<close>, with the parser free
  to raise, and the call of \<open>validate_database_context\<close> both end in a returned pair.
  That pair is an acceptance with no reason or a rejection of one of the kinds above,
  carried as a value.
\<close>

theorem checks_fail_closed_and_return_decisions:
  assumes "\<not> allow_dangerous_operations h"
  shows "(parse query = Inl e \<longrightarrow>
            is_query_safe h parse query = (False, msg_parse_failed @ e)) \<and>
         (parse query = Inr [] \<longrightarrow>
            is_query_safe h parse query = (False, msg_cannot_parse)) \<and>
         (fst (is_query_safe h parse query) \<longleftrightarrow>
            (\<exists>parsed. parse query = Inr parsed \<and> parsed \<noteq> [] \<and>
               list_all (\<lambda>st. fst (check_statement_safety h st)) parsed)) \<and>
         is_query_safe_call h parse query = Inr (is_query_safe h parse query) \<and>
         validate_database_context_call h query = Inr (validate_database_context h query) \<and>
         safety_decision h (is_query_safe h parse query) \<and>
         context_decision h (validate_database_context h query)"
proof -
  have a: "fst (is_query_safe h parse query) \<longleftrightarrow>
            (\<exists>parsed. parse query = Inr parsed \<and> parsed \<noteq> [] \<and>
               list_all (\<lambda>st. fst (check_statement_safety h st)) parsed)"
    using assms by (cases "parse query") (auto simp: is_query_safe_def check_statements_all)
  have b: "is_query_safe_call h parse query = Inr (is_query_safe h parse query)"
    by (cases "parse query")
      (simp_all add: is_query_safe_call_def is_query_safe_try_def is_query_safe_def)
  have c: "validate_database_context_call h query = Inr (validate_database_context h query)"
    by (simp add: validate_database_context_call_def)
  from assms a b c is_query_safe_decision [of h parse query]
    validate_database_context_decision [of h query]
  show ?thesis
    by (simp add: is_query_safe_def)
qed

theorem checks_fail_closed_and_return_decisions_witness:
  "\<not> allow_dangerous_operations enforced \<and>
   parse_too_deep deeply_nested = Inl ''Maximum recursion depth exceeded'' \<and>
   is_query_safe enforced parse_too_deep deeply_nested =
     (False, msg_parse_failed @ ''Maximum recursion depth exceeded'') \<and>
   is_query_safe_call enforced parse_too_deep deeply_nested =
     Inr (False, msg_parse_failed @ ''Maximum recursion depth exceeded'') \<and>
   parse_gives [] [] = Inr [] \<and>
   is_query_safe enforced (parse_gives []) [] = (False, msg_cannot_parse) \<and>
   parse_gives [select_1] ''SELECT 1;'' = Inr [select_1] \<and>
   list_all (\<lambda>st. fst (check_statement_safety enforced st)) [select_1] \<and>
   fst (is_query_safe enforced (parse_gives [select_1]) ''SELECT 1;'')"
proof -
  have e: "\<not> allow_dangerous_operations enforced"
    by (simp add: enforced_def)
  have p: "parse_too_deep deeply_nested = Inl ''Maximum recursion depth exceeded''"
    by (simp add: parse_too_deep_def)
  have q: "parse_gives [] [] = Inr []" "parse_gives [select_1] ''SELECT 1;'' = Inr [select_1]"
    by (simp_all add: parse_gives_def)
  have s: "list_all (\<lambda>st. fst (check_statement_safety enforced st)) [select_1]"
    by (simp add: select_1_def check_statement_safety_def check_select_safety_def
        check_nested_dangerous_operations_def str_of_statement_def dangerous_constructs_def
        dangerous_dml_def safe_commands_def string_eval)
  from checks_fail_closed_and_return_decisions
      [OF e, where parse = parse_too_deep and query = deeply_nested
        and e = "''Maximum recursion depth exceeded''"]
    checks_fail_closed_and_return_decisions
      [OF e, where parse = "parse_gives []" and query = "[]"]
    checks_fail_closed_and_return_decisions
      [OF e, where parse = "parse_gives [select_1]" and query = "''SELECT 1;''"]
    e p q s
  show ?thesis
    by simp
qed

subsection \<open>UNION\<close>

lemma scan_constructs_none:
  "scan_constructs h dangerous_constructs s = None \<longleftrightarrow> \<not> has_dangerous_construct s"
  by (simp add: dangerous_constructs_def has_dangerous_construct_def)

text \<open>
  Claim C5, as amended. In enforced mode a statement whose command is SELECT and whose
  uppercased text contains \<open>UNION\<close> is rejected; the rejection is the UNION message
  when the text contains none of the five dangerous constructs. A union of a table with
  itself is rejected with that message.
\<close>

theorem union_in_select_rejected:
  assumes "first_non_whitespace statement = Some first_token"
    and "extract_sql_keyword first_token = ''SELECT''"
    and "str_in ''UNION'' (py_upper (str_of_statement statement))"
  shows "\<not> fst (check_statement_safety h statement) \<and>
         (\<not> has_dangerous_construct (py_upper (str_of_statement statement)) \<longrightarrow>
            check_statement_safety h statement = (False, union_msg h))"
proof -
  have g: "check_statement_safety h statement = check_select_safety h statement"
    using assms(1,2) by (simp add: check_statement_safety_def safe_commands_def)
  show ?thesis
  proof (cases "scan_constructs h dangerous_constructs (py_upper (str_of_statement statement))")
    case None
    with assms(3) show ?thesis
      by (simp add: g check_select_safety_def)
  next
    case (Some d)
    with scan_constructs_rejects [OF Some]
      scan_constructs_none [of h "py_upper (str_of_statement statement)"] show ?thesis
      by (simp add: g check_select_safety_def)
  qed
qed

lemma union_same_table_text:
  "py_upper (str_of_statement union_same_table) = ''SELECT A FROM T UNION SELECT A FROM T''"
  by (simp add: union_same_table_def str_of_statement_def string_eval)

theorem union_in_select_rejected_witness:
  "first_non_whitespace union_same_table = Some (Token Keyword_DML ''SELECT'') \<and>
   extract_sql_keyword (Token Keyword_DML ''SELECT'') = ''SELECT'' \<and>
   str_in ''UNION'' (py_upper (str_of_statement union_same_table)) \<and>
   \<not> has_dangerous_construct (py_upper (str_of_statement union_same_table)) \<and>
   check_statement_safety enforced union_same_table =
     (False, ''Detected UNION operation, potential security risk, query rejected'')"
proof -
  have f: "first_non_whitespace union_same_table = Some (Token Keyword_DML ''SELECT'')"
    by (simp add: union_same_table_def)
  have k: "extract_sql_keyword (Token Keyword_DML ''SELECT'') = ''SELECT''"
    by (simp add: string_eval)
  have u: "str_in ''UNION'' (py_upper (str_of_statement union_same_table))"
    by (simp add: union_same_table_text)
  have n: "\<not> has_dangerous_construct (py_upper (str_of_statement union_same_table))"
    by (simp add: union_same_table_text has_dangerous_construct_def)
  have m: "union_msg enforced =
      ''Detected UNION operation, potential security risk, query rejected''"
    by (simp add: union_msg_def get_message_def enforced_def)
  from union_in_select_rejected [OF f k u, of enforced] f k u n m show ?thesis
    by simp
qed

text \<open>
  Claim C5 as stated fails: \<open>SELECT @@version UNION SELECT 1\<close> contains \<open>UNION\<close> and is
  rejected for the construct \<open>@@\<close>, with a message that is not the UNION message; and
  \<open>WITH x AS (SELECT 1 UNION SELECT 2) SELECT * FROM x\<close>, whose command is WITH, contains
  \<open>UNION\<close> and is accepted.
\<close>

theorem union_not_always_union_rejected:
  "first_non_whitespace union_sysvar = Some (Token Keyword_DML ''SELECT'') \<and>
   extract_sql_keyword (Token Keyword_DML ''SELECT'') = ''SELECT'' \<and>
   str_in ''UNION'' (py_upper (str_of_statement union_sysvar)) \<and>
   check_statement_safety enforced union_sysvar = (False, construct_msg enforced desc_sysvar) \<and>
   construct_msg enforced desc_sysvar \<noteq> union_msg enforced \<and>
   first_non_whitespace with_union = Some (Token Keyword_CTE ''WITH'') \<and>
   extract_sql_keyword (Token Keyword_CTE ''WITH'') = ''WITH'' \<and>
   str_in ''UNION'' (py_upper (str_of_statement with_union)) \<and>
   check_statement_safety enforced with_union = (True, [])"
proof -
  have t: "py_upper (str_of_statement union_sysvar) = ''SELECT @@VERSION UNION SELECT 1''"
    by (simp add: union_sysvar_def str_of_statement_def string_eval)
  have w: "py_upper (str_of_statement with_union) =
      ''WITH X AS (SELECT 1 UNION SELECT 2) SELECT * FROM X''"
    by (simp add: with_union_def str_of_statement_def string_eval)
  have f: "first_non_whitespace union_sysvar = Some (Token Keyword_DML ''SELECT'')"
    by (simp add: union_sysvar_def)
  have k: "extract_sql_keyword (Token Keyword_DML ''SELECT'') = ''SELECT''"
    by (simp add: string_eval)
  have g: "check_statement_safety enforced union_sysvar =
      check_select_safety enforced union_sysvar"
    by (simp add: check_statement_safety_def f safe_commands_def string_eval)
  have r: "check_statement_safety enforced union_sysvar =
      (False, construct_msg enforced desc_sysvar)"
    by (simp add: g check_select_safety_def t dangerous_constructs_def)
  have d: "construct_msg enforced desc_sysvar \<noteq> union_msg enforced"
    by (simp add: construct_msg_def union_msg_def get_message_def enforced_def)
  have f': "first_non_whitespace with_union = Some (Token Keyword_CTE ''WITH'')"
    by (simp add: with_union_def)
  have k': "extract_sql_keyword (Token Keyword_CTE ''WITH'') = ''WITH''"
    by (simp add: string_eval)
  have r': "check_statement_safety enforced with_union = (True, [])"
    by (simp add: check_statement_safety_def f' safe_commands_def string_eval)
  from t w f k r d f' k' r' show ?thesis
    by simp
qed

subsection \<open>Database switches\<close>

text \<open>
  Claim C10. \<open>validate_database_context\<close> rejects, with the message of line 246, every
  query whose stripped and uppercased text contains \<open>USE \<close> or a backslash followed by
  \<open>C \<close>. The test is on substrings: \<open>SELECT * FROM house WHERE id = 1\<close> has no USE
  statement and is rejected, for the letters \<open>use\<close> that end \<open>house\<close>.
\<close>

theorem use_substring_rejected:
  "(str_in ''USE '' (py_upper (py_strip query)) \<or>
    str_in (CHR 0x5C # ''C '') (py_upper (py_strip query)) \<longrightarrow>
      validate_database_context h query = (False, switch_msg h)) \<and>
   py_upper (py_strip ''SELECT * FROM house WHERE id = 1'') =
     ''SELECT * FROM HOUSE WHERE ID = 1'' \<and>
   validate_database_context h ''SELECT * FROM house WHERE id = 1'' = (False, switch_msg h)"
proof -
  have u: "py_upper (py_strip ''SELECT * FROM house WHERE id = 1'') =
     ''SELECT * FROM HOUSE WHERE ID = 1''"
    by (simp add: string_eval)
  have "validate_database_context h ''SELECT * FROM house WHERE id = 1'' = (False, switch_msg h)"
    by (simp add: validate_database_context_def u)
  with u show ?thesis
    by (auto simp: validate_database_context_def Let_def)
qed

theorem use_substring_rejected_witness:
  "str_in ''USE '' (py_upper (py_strip '' use otherdb '')) \<and>
   validate_database_context enforced '' use otherdb '' = (False, switch_msg enforced)"
proof -
  have u: "py_upper (py_strip '' use otherdb '') = ''USE OTHERDB''"
    by (simp add: string_eval)
  have s: "str_in ''USE '' (py_upper (py_strip '' use otherdb ''))"
    by (simp add: u)
  from use_substring_rejected [of "'' use otherdb ''" enforced] s show ?thesis
    by simp
qed

subsection \<open>The schema guard and the mode\<close>

text \<open>
  Claim C7. The decision of \<open>validate_database_context\<close> does not depend on
  \<open>allow_dangerous_operations\<close>. \<open>execute_query\<close> returns a rejection for every query
  that \<open>validate_database_context\<close> rejects, in either mode and for every parser; in
  permissive mode, where \<open>is_query_safe\<close> allows everything, \<open>execute_query\<close> goes on to
  the database exactly when \<open>validate_database_context\<close> allows the query.
\<close>

theorem schema_guard_independent_of_mode:
  "validate_database_context (h\<lparr>allow_dangerous_operations := b\<rparr>) query =
     validate_database_context h query \<and>
   (\<not> fst (validate_database_context h query) \<longrightarrow>
      (\<exists>msg. execute_query h parse query = Returned msg)) \<and>
   (allow_dangerous_operations h \<longrightarrow>
      execute_query h parse query =
        (if fst (validate_database_context h query) then Connect
         else Returned (rejected_msg h @ '': '' @ snd (validate_database_context h query))))"
proof -
  have a: "validate_database_context (h\<lparr>allow_dangerous_operations := b\<rparr>) query =
     validate_database_context h query"
    by (simp add: validate_database_context_def Let_def switch_msg_def)
  have b: "\<exists>msg. execute_query h parse query = Returned msg"
    if "\<not> fst (validate_database_context h query)"
    using that by (auto simp: execute_query_def split: prod.splits)
  have c: "execute_query h parse query =
        (if fst (validate_database_context h query) then Connect
         else Returned (rejected_msg h @ '': '' @ snd (validate_database_context h query)))"
    if "allow_dangerous_operations h"
    using that by (auto simp: execute_query_def is_query_safe_def split: prod.splits)
  from a b c show ?thesis by blast
qed

theorem schema_guard_independent_of_mode_witness:
  "allow_dangerous_operations permissive \<and>
   is_query_safe permissive parse_raises ''DELETE FROM secret.users'' = (True, []) \<and>
   \<not> fst (validate_database_context permissive ''DELETE FROM secret.users'') \<and>
   execute_query permissive parse_raises ''DELETE FROM secret.users'' =
     Returned (rejected_msg permissive @ '': '' @ schema_msg ''secret'')"
proof -
  have p: "allow_dangerous_operations permissive"
    by (simp add: permissive_def)
  have s: "is_query_safe permissive parse_raises ''DELETE FROM secret.users'' = (True, [])"
    by (simp add: is_query_safe_def p)
  have u: "py_upper (py_strip ''DELETE FROM secret.users'') = ''DELETE FROM SECRET.USERS''"
    by (simp add: string_eval)
  have f: "findall None ''DELETE FROM secret.users'' = [''secret'']"
    by (simp add: match_at_def word_boundary_def match_keyword_schema_def match_ci_def
        ident_char_def string_eval)
  have c: "check_matches [''secret''] = (False, schema_msg ''secret'')"
    by (simp add: string_eval)
  have v: "validate_database_context permissive ''DELETE FROM secret.users'' =
      (False, schema_msg ''secret'')"
    by (simp add: validate_database_context_def u f c del: findall.simps check_matches.simps)
  from schema_guard_independent_of_mode
    [where h = permissive and b = True and query = "''DELETE FROM secret.users''"
      and parse = parse_raises] p s v
  show ?thesis by simp
qed


subsection \<open>The schema guard\<close>

lemma check_matches_find:
  "check_matches ms =
     (case find (\<lambda>m. \<not> allowed_schema m) ms of
        None \<Rightarrow> (True, [])
      | Some m \<Rightarrow> (False, schema_msg m))"
  by (induction ms) (simp_all add: allowed_schema_def)

lemma match_ci_split:
  "match_ci kw s = Some r \<Longrightarrow> \<exists>k. s = k @ r \<and> py_upper k = kw"
  by (auto simp: match_ci_def split: if_splits intro!: exI [of _ "take (length kw) s"])

lemma match_alternatives_split:
  "match_alternatives kws s = Some r \<Longrightarrow> \<exists>k. s = k @ r \<and> py_upper k \<in> set kws"
proof (induction kws)
  case Nil
  then show ?case by simp
next
  case (Cons kw kws)
  then show ?case
    by (cases "match_ci kw s") (auto dest: match_ci_split)
qed

lemma match_keyword_schema_split:
  assumes "match_keyword_schema s = Some (m, rest)"
  shows "\<exists>kw sp. s = kw @ sp @ m @ ''.'' @ rest \<and>
           schema_keyword kw \<and>
           sp \<noteq> [] \<and> list_all isspace sp \<and> m \<noteq> [] \<and> list_all ident_char m"
proof -
  from assms obtain r where r: "match_alternatives [''FROM'', ''JOIN'', ''INTO'', ''UPDATE''] s = Some r"
    and sp: "takeWhile isspace r \<noteq> []"
    and m: "m = takeWhile ident_char (dropWhile isspace r)" "m \<noteq> []"
    and d: "dropWhile ident_char (dropWhile isspace r) = CHR ''.'' # rest"
    by (auto simp: match_keyword_schema_def Let_def split: option.splits if_splits list.splits)
  from match_alternatives_split [OF r] obtain kw
    where kw: "s = kw @ r" "schema_keyword kw"
    unfolding schema_keyword_def by blast
  have "r = takeWhile isspace r @ dropWhile isspace r"
    by simp
  also have "dropWhile isspace r = m @ CHR ''.'' # rest"
    using m(1) d takeWhile_dropWhile_id [of ident_char "dropWhile isspace r"] by simp
  finally have "s = kw @ takeWhile isspace r @ m @ ''.'' @ rest"
    using kw(1) by simp
  moreover have "list_all isspace (takeWhile isspace r)"
    by (simp add: list_all_iff) (meson set_takeWhileD)
  moreover have "list_all ident_char m"
    unfolding m(1) by (simp add: list_all_iff) (meson set_takeWhileD)
  ultimately show ?thesis
    using kw(2) sp m(2) by blast
qed

lemma findall_occurrence:
  "m \<in> set (findall prev s) \<Longrightarrow>
   \<exists>pre kw sp post.
     s = pre @ kw @ sp @ m @ ''.'' @ post \<and>
     schema_keyword kw \<and>
     (case (if pre = [] then prev else Some (last pre)) of
        None \<Rightarrow> True
      | Some p \<Rightarrow> \<not> isword p) \<and>
     sp \<noteq> [] \<and> list_all isspace sp \<and> m \<noteq> [] \<and> list_all ident_char m"
proof (induction prev s rule: findall.induct)
  case (1 prev)
  then show ?case by simp
next
  case (2 prev c cs)
  show ?case
  proof (cases "match_at prev (c # cs)")
    case None
    with 2 have "m \<in> set (findall (Some c) cs)" by simp
    from "2.IH"(1) [OF None this] obtain pre kw sp post where
      *: "cs = pre @ kw @ sp @ m @ ''.'' @ post"
      "schema_keyword kw"
      "case (if pre = [] then Some c else Some (last pre)) of
         None \<Rightarrow> True | Some p \<Rightarrow> \<not> isword p"
      "sp \<noteq> []" "list_all isspace sp" "m \<noteq> []" "list_all ident_char m"
      by blast
    show ?thesis
      apply (rule exI [of _ "c # pre"])
      apply (rule exI [of _ kw])
      apply (rule exI [of _ sp])
      apply (rule exI [of _ post])
      using * by (simp split: if_splits)
  next
    case (Some x)
    obtain ident rest where x: "x = (ident, rest)" by (cases x)
    from Some x have b: "word_boundary prev (c # cs)"
      and k: "match_keyword_schema (c # cs) = Some (ident, rest)"
      by (auto simp: match_at_def split: if_splits)
    from match_keyword_schema_split [OF k] obtain kw sp where
      s: "c # cs = kw @ sp @ ident @ ''.'' @ rest"
      "schema_keyword kw"
      "sp \<noteq> []" "list_all isspace sp" "ident \<noteq> []" "list_all ident_char ident"
      by blast
    from 2 Some x have "m = ident \<or> m \<in> set (findall (Some CHR ''.'') rest)"
      by simp
    then show ?thesis
    proof
      assume "m = ident"
      have w: "isword c"
      proof -
        from s(2) have "kw \<noteq> []" by (auto simp: schema_keyword_def py_upper_def)
        with s(1) have "hd kw = c" by (cases kw) auto
        with s(2) \<open>kw \<noteq> []\<close> have "upper_char c \<in> set ''FJIU''"
          by (cases kw) (auto simp: schema_keyword_def py_upper_def)
        then show ?thesis
          by (auto simp: upper_char_def isword_def split: option.splits if_splits)
      qed
      with b have p: "case prev of None \<Rightarrow> True | Some p \<Rightarrow> \<not> isword p"
        by (auto simp: word_boundary_def split: option.splits)
      show ?thesis
        apply (rule exI [of _ "[]"])
        apply (rule exI [of _ kw])
        apply (rule exI [of _ sp])
        apply (rule exI [of _ rest])
        using s p \<open>m = ident\<close> by simp
    next
      assume "m \<in> set (findall (Some CHR ''.'') rest)"
      from "2.IH"(2) [OF Some x [symmetric] this] obtain pre kw' sp' post where
        *: "rest = pre @ kw' @ sp' @ m @ ''.'' @ post"
        "schema_keyword kw'"
        "case (if pre = [] then Some CHR ''.'' else Some (last pre)) of
           None \<Rightarrow> True | Some p \<Rightarrow> \<not> isword p"
        "sp' \<noteq> []" "list_all isspace sp'" "m \<noteq> []" "list_all ident_char m"
        by blast
      show ?thesis
        apply (rule exI [of _ "kw @ sp @ ident @ ''.'' @ pre"])
        apply (rule exI [of _ kw'])
        apply (rule exI [of _ sp'])
        apply (rule exI [of _ post])
        using * s(1) by (simp split: if_splits)
    qed
  qed
qed

lemma captured_schema_occurs:
  assumes "m \<in> set (findall None query)"
  shows "schema_occurrence query m"
proof -
  from findall_occurrence [OF assms] obtain pre kw sp post where
    *: "query = pre @ kw @ sp @ m @ ''.'' @ post"
    "schema_keyword kw"
    "case (if pre = [] then None else Some (last pre)) of
       None \<Rightarrow> True | Some p \<Rightarrow> \<not> isword p"
    "sp \<noteq> []" "list_all isspace sp" "m \<noteq> []" "list_all ident_char m"
    by blast
  from *(3) have "pre = [] \<or> \<not> isword (last pre)"
    by (simp split: if_splits)
  with * show ?thesis
    unfolding schema_occurrence_def by blast
qed

lemma find_in_set: "find P xs = Some x \<Longrightarrow> x \<in> set xs \<and> P x"
  by (induction xs) (auto split: if_splits)

text \<open>
  Claim C6, as amended. \<open>validate_database_context\<close> scans the original text with the
  pattern \<open>\b(?:FROM|JOIN|INTO|UPDATE)\s+([^\s\.]+)\.\<close>, the keyword in any case and
  preceded by a word boundary. When the stripped and uppercased text contains neither
  \<open>USE \<close> nor a backslash followed by \<open>C \<close>, the result is the rejection naming the
  first captured identifier that is not \<open>public\<close>, \<open>pg_catalog\<close> or
  \<open>information_schema\<close> in any case, and acceptance when there is none; every
  identifier named in such a rejection comes from an occurrence of the pattern in the
  text. So \<open>SELECT * FROM public.users\<close> passes and \<open>SELECT * FROM secret.users\<close> is
  rejected for the schema \<open>secret\<close>.
\<close>

theorem schema_guard_first_unauthorized:
  assumes "\<not> str_in (CHR 0x5C # ''C '') (py_upper (py_strip query))"
    and "\<not> str_in ''USE '' (py_upper (py_strip query))"
  shows "validate_database_context h query =
           (case find (\<lambda>m. \<not> allowed_schema m) (findall None query) of
              None \<Rightarrow> (True, [])
            | Some m \<Rightarrow> (False, schema_msg m)) \<and>
         (\<forall>m. validate_database_context h query = (False, schema_msg m) \<longrightarrow>
              schema_occurrence query m \<and> \<not> allowed_schema m)"
proof -
  have v: "validate_database_context h query =
           (case find (\<lambda>m. \<not> allowed_schema m) (findall None query) of
              None \<Rightarrow> (True, [])
            | Some m \<Rightarrow> (False, schema_msg m))"
    using assms by (simp add: validate_database_context_def check_matches_find)
  have inj: "m = m'" if "schema_msg m = schema_msg m'" for m m'
    using that by (simp add: schema_msg_def)
  have "schema_occurrence query m \<and> \<not> allowed_schema m"
    if r: "validate_database_context h query = (False, schema_msg m)" for m
  proof (cases "find (\<lambda>m. \<not> allowed_schema m) (findall None query)")
    case None
    with v r show ?thesis by simp
  next
    case (Some m')
    with v r have "m = m'" by (simp add: inj)
    with find_in_set [OF Some] show ?thesis
      by (simp add: captured_schema_occurs)
  qed
  with v show ?thesis by blast
qed

theorem schema_guard_first_unauthorized_witness:
  "\<not> str_in (CHR 0x5C # ''C '') (py_upper (py_strip ''SELECT * FROM secret.users'')) \<and>
   \<not> str_in ''USE '' (py_upper (py_strip ''SELECT * FROM secret.users'')) \<and>
   findall None ''SELECT * FROM secret.users'' = [''secret''] \<and>
   validate_database_context enforced ''SELECT * FROM secret.users'' =
     (False, schema_msg ''secret'') \<and>
   schema_occurrence ''SELECT * FROM secret.users'' ''secret'' \<and>
   \<not> str_in (CHR 0x5C # ''C '') (py_upper (py_strip ''SELECT * FROM public.users'')) \<and>
   \<not> str_in ''USE '' (py_upper (py_strip ''SELECT * FROM public.users'')) \<and>
   findall None ''SELECT * FROM public.users'' = [''public''] \<and>
   validate_database_context enforced ''SELECT * FROM public.users'' = (True, [])"
proof -
  have u: "py_upper (py_strip ''SELECT * FROM secret.users'') = ''SELECT * FROM SECRET.USERS''"
    by (simp add: string_eval)
  have u': "py_upper (py_strip ''SELECT * FROM public.users'') = ''SELECT * FROM PUBLIC.USERS''"
    by (simp add: string_eval)
  have a: "\<not> str_in (CHR 0x5C # ''C '') (py_upper (py_strip ''SELECT * FROM secret.users''))"
    "\<not> str_in ''USE '' (py_upper (py_strip ''SELECT * FROM secret.users''))"
    by (simp_all add: u)
  have a': "\<not> str_in (CHR 0x5C # ''C '') (py_upper (py_strip ''SELECT * FROM public.users''))"
    "\<not> str_in ''USE '' (py_upper (py_strip ''SELECT * FROM public.users''))"
    by (simp_all add: u')
  have f: "findall None ''SELECT * FROM secret.users'' = [''secret'']"
    by (simp add: match_at_def word_boundary_def match_keyword_schema_def match_ci_def
        ident_char_def string_eval)
  have f': "findall None ''SELECT * FROM public.users'' = [''public'']"
    by (simp add: match_at_def word_boundary_def match_keyword_schema_def match_ci_def
        ident_char_def string_eval)
  have s: "\<not> allowed_schema ''secret''" "allowed_schema ''public''"
    by (simp_all add: allowed_schema_def string_eval)
  have c: "check_matches [''secret''] = (False, schema_msg ''secret'')"
    "check_matches [''public''] = (True, [])"
    by (simp_all add: string_eval)
  have v: "validate_database_context enforced ''SELECT * FROM secret.users'' =
     (False, schema_msg ''secret'')"
    using a by (simp add: validate_database_context_def f c del: findall.simps check_matches.simps)
  have v': "validate_database_context enforced ''SELECT * FROM public.users'' = (True, [])"
    using a' by (simp add: validate_database_context_def f' c del: findall.simps check_matches.simps)
  from schema_guard_first_unauthorized [OF a, of enforced] v
  have o: "schema_occurrence ''SELECT * FROM secret.users'' ''secret''"
    by blast
  from a a' f f' v v' o show ?thesis
    by blast
qed

text \<open>
  Claim C6 as stated fails in two ways. The pattern of the claim has no word boundary:
  it matches \<open>from secret.\<close> inside \<open>SELECT 1 xfrom secret.t\<close>, which the check
  accepts. And a captured identifier outside the three schemas is not always what the
  rejection names: \<open>SELECT * FROM secret.house WHERE id = 1\<close> is rejected with the
  message of the database switch, which is tested first.
\<close>

theorem schema_guard_differs_from_stated_pattern:
  "drop 10 ''SELECT 1 xfrom secret.t'' = ''from secret.t'' \<and>
   match_keyword_schema ''from secret.t'' = Some (''secret'', ''t'') \<and>
   \<not> allowed_schema ''secret'' \<and>
   validate_database_context enforced ''SELECT 1 xfrom secret.t'' = (True, []) \<and>
   findall None ''SELECT * FROM secret.house WHERE id = 1'' = [''secret''] \<and>
   validate_database_context enforced ''SELECT * FROM secret.house WHERE id = 1'' =
     (False, switch_msg enforced) \<and>
   switch_msg enforced \<noteq> schema_msg ''secret''"
proof -
  have d: "drop 10 ''SELECT 1 xfrom secret.t'' = ''from secret.t''"
    by simp
  have m: "match_keyword_schema ''from secret.t'' = Some (''secret'', ''t'')"
    by (simp add: match_keyword_schema_def match_ci_def ident_char_def string_eval)
  have s: "\<not> allowed_schema ''secret''"
    by (simp add: allowed_schema_def string_eval)
  have u: "py_upper (py_strip ''SELECT 1 xfrom secret.t'') = ''SELECT 1 XFROM SECRET.T''"
    by (simp add: string_eval)
  have f: "findall None ''SELECT 1 xfrom secret.t'' = []"
    by (simp add: match_at_def word_boundary_def match_keyword_schema_def match_ci_def
        ident_char_def string_eval)
  have v: "validate_database_context enforced ''SELECT 1 xfrom secret.t'' = (True, [])"
    by (simp add: validate_database_context_def u f del: findall.simps)
  have f': "findall None ''SELECT * FROM secret.house WHERE id = 1'' = [''secret'']"
    by (simp add: match_at_def word_boundary_def match_keyword_schema_def match_ci_def
        ident_char_def string_eval)
  have u': "py_upper (py_strip ''SELECT * FROM secret.house WHERE id = 1'') =
      ''SELECT * FROM SECRET.HOUSE WHERE ID = 1''"
    by (simp add: string_eval)
  have v': "validate_database_context enforced ''SELECT * FROM secret.house WHERE id = 1'' =
     (False, switch_msg enforced)"
    by (simp add: validate_database_context_def u' del: findall.simps)
  have n: "switch_msg enforced \<noteq> schema_msg ''secret''"
    by (simp add: switch_msg_def schema_msg_def switch_1_def schema_1_def)
  from d m s v f' v' n show ?thesis by simp
qed


end
